(* ===== verification/Prelude.thy ===== *)
theory Prelude
  imports "HOL-Library.Multiset"
begin

text \<open>
  Shared vocabulary of the ChatsPage development: the collections of handler
  definitions that the component proofs unfold, the JavaScript string primitive
  \<open>String.prototype.trim\<close> that the send guard calls, and generic lemmas on lists
  (removal by index and its multiset, counting under multiset inclusion, sortedness by
  a key) that the message-store and request-queue proofs share.
\<close>

named_theorems page_defs "definitions of the ChatsPage handlers, unfolded together"
named_theorems socket_defs "definitions of the socket.io client operations"

subsection \<open>JavaScript whitespace and \<open>trim\<close>\<close>

text \<open>
  \<open>String.prototype.trim\<close> removes leading and trailing WhiteSpace and LineTerminator
  code units. Restricted to the 8-bit characters of HOL these are tab, line feed,
  vertical tab, form feed, carriage return, space and no-break space (U+00A0).
\<close>

definition js_ws :: "char \<Rightarrow> bool" where
  "js_ws c \<longleftrightarrow> of_char c \<in> {9, 10, 11, 12, 13, 32, 160 :: nat}"

definition js_trim :: "string \<Rightarrow> string" where
  "js_trim s = rev (dropWhile js_ws (rev (dropWhile js_ws s)))"

text \<open>Removing the \<open>i\<close>-th element: a settled promise leaves the queue of pending requests.\<close>

definition remove_nth :: "nat \<Rightarrow> 'a list \<Rightarrow> 'a list" where
  "remove_nth i xs = take i xs @ drop (Suc i) xs"

lemma dropWhile_all_iff: "dropWhile P xs = [] \<longleftrightarrow> list_all P xs"
  by (induction xs) auto

lemma js_trim_Nil_iff: "js_trim s = [] \<longleftrightarrow> list_all js_ws s"
proof -
  have "js_trim s = [] \<longleftrightarrow> list_all js_ws (dropWhile js_ws s)"
    by (simp add: js_trim_def dropWhile_all_iff list_all_iff)
  also have "\<dots> \<longleftrightarrow> list_all js_ws s"
    by (induction s) auto
  finally show ?thesis .
qed

subsection \<open>Lists\<close>

lemma set_remove_nth: "set (remove_nth i xs) \<subseteq> set xs"
  by (auto simp: remove_nth_def dest: in_set_takeD in_set_dropD)

lemma filter_remove_nth:
  "i < length xs \<Longrightarrow>
   length (filter P xs) = length (filter P (remove_nth i xs)) + (if P (xs ! i) then 1 else 0)"
proof -
  assume i: "i < length xs"
  then have "xs = take i xs @ xs ! i # drop (Suc i) xs"
    by (simp add: id_take_nth_drop)
  then have "length (filter P xs) = length (filter P (take i xs @ xs ! i # drop (Suc i) xs))"
    by simp
  then show ?thesis
    by (simp add: remove_nth_def)
qed

lemma filter_remove_nth_other:
  "i < length xs \<Longrightarrow> \<not> P (xs ! i) \<Longrightarrow> filter P (remove_nth i xs) = filter P xs"
  by (metis (no_types) filter.simps(2) filter_append id_take_nth_drop remove_nth_def)

lemma length_remove_nth: "i < length xs \<Longrightarrow> length (remove_nth i xs) = length xs - 1"
  by (simp add: remove_nth_def)

lemma mset_remove_nth:
  "i < length xs \<Longrightarrow> mset (remove_nth i xs) = mset xs - {#xs ! i#}"
proof -
  assume "i < length xs"
  then have "mset xs = mset (take i xs @ xs ! i # drop (Suc i) xs)"
    by (simp add: id_take_nth_drop [symmetric])
  then show ?thesis
    by (simp add: remove_nth_def)
qed

lemma mset_remove_nth_subseteq: "mset (remove_nth i xs) \<subseteq># mset xs"
proof (cases "i < length xs")
  case True
  then show ?thesis by (simp add: mset_remove_nth)
next
  case False
  then show ?thesis by (simp add: remove_nth_def)
qed

lemma length_filter_mono_mset:
  "mset xs \<subseteq># mset ys \<Longrightarrow> length (filter P xs) \<le> length (filter P ys)"
  by (metis mset_filter multiset_filter_mono size_mset size_mset_mono)

lemma funpow_frame:
  "(\<And>x. f (h x) = f x) \<Longrightarrow> f ((h ^^ n) x) = f x"
  by (induction n) auto

lemma sorted_map_snoc:
  "sorted (map f xs @ [f x]) \<longleftrightarrow> sorted (map f xs) \<and> (\<forall>y \<in> set xs. f y \<le> f x)"
  by (auto simp: sorted_append)

lemma sorted_map_rev:
  "sorted (map f (rev xs)) \<longleftrightarrow> sorted_wrt (\<lambda>a b. f b \<le> f a) xs"
  by (simp add: rev_map [symmetric] sorted_wrt_rev sorted_wrt_map)

end
