(* ===== verification/ChatData.thy ===== *)
theory ChatData
  imports Prelude
begin

text \<open>
  The data the ChatsPage component handles: the backend's user, chat and message
  objects (records with the JSON field names the page reads), the two payloads the
  page emits on the socket, the two socket events it listens to, the asynchronous
  backend requests it starts and the values they settle with, and the JavaScript
  failure a null dereference raises.
\<close>

text \<open>The user object of \<open>getUserByUsername\<close> (fields read in \<open>openChat\<close> and \<open>postMessage\<close>).\<close>

record user =
  user_id :: nat
  username :: string
  first_name :: string
  last_name :: string

text \<open>A chat of \<open>getChatsOfUser\<close> (fields read by \<open>openChat\<close> and the chat list).\<close>

record chat =
  chat_id :: nat
  chat_name :: string
  image :: "string option"

text \<open>
  A message of \<open>getMessagesOfChat\<close> or of a \<open>new_message\<close> push. Field names are
  prefixed where they would clash with the user record; \<open>message_sent_at\<close> is the
  timestamp as an integer (milliseconds since the epoch).
\<close>

record message =
  message_id :: nat
  message_chat_id :: nat
  message_user_id :: nat
  message_first_name :: string
  message_last_name :: string
  message_content :: string
  message_sent_at :: int

text \<open>The two values of \<open>alertModalType\<close>: \<open>"success"\<close> and \<open>"error"\<close>.\<close>

datatype alert_type = Alert_success | Alert_error

text \<open>
  Emitted packets: \<open>socket.emit("join", {username, chat_id})\<close> and
  \<open>socket.emit("message", {user_id, first_name, last_name, chat_id, message_content})\<close>.
\<close>

datatype emit =
    Emit_join string nat
  | Emit_message nat string string nat string

text \<open>The events the page subscribes to with \<open>socket.on\<close>.\<close>

datatype sock_event = New_message | Error_sending_message

text \<open>
  Backend calls in flight. \<open>Req_messages c n\<close> is \<open>getMessagesOfChat(c.chat_id, n)\<close>,
  kept with the chat object the closure of \<open>getCurentChatMessages\<close> holds;
  \<open>Req_sign_out\<close> is aws-amplify's \<open>signOut()\<close>.
\<close>

datatype request =
    Req_current_user
  | Req_user_by_name string
  | Req_chats string
  | Req_messages chat nat
  | Req_sign_out

text \<open>
  How a request settles: \<open>Inl\<close> is a rejected promise carrying the error's message,
  \<open>Inr\<close> the resolved value. The message list comes most-recent-first, as the
  backend sends it.
\<close>

datatype response =
    Resp_current_user "string + string"
  | Resp_user "string + user"
  | Resp_chats "string + chat list"
  | Resp_messages "string + message list"
  | Resp_sign_out "string + unit"

text \<open>
  A JavaScript statement either completes or throws; a thrown \<open>TypeError\<close> (reading a
  property of \<open>null\<close>) keeps the state updates made before the throw.
\<close>

datatype js_error = TypeError

datatype 'a js_result = Ok 'a | Throw js_error 'a

fun js_state :: "'a js_result \<Rightarrow> 'a" where
  "js_state (Ok s) = s"
| "js_state (Throw e s) = s"

fun is_req_chats :: "request \<Rightarrow> bool" where
  "is_req_chats (Req_chats n) = True"
| "is_req_chats r = False"

fun is_user_req :: "request \<Rightarrow> bool" where
  "is_user_req Req_current_user = True"
| "is_user_req (Req_user_by_name n) = True"
| "is_user_req r = False"

end
