(* ===== verification/Socket.thy ===== *)
theory Socket
  imports ChatData
begin

text \<open>
  The shared socket.io client exported by \<open>../socket\<close> (not part of the sources): a
  connection flag, the registered listeners in registration order, and the packets
  emitted so far. socket.io buffers packets emitted while disconnected and sends them
  on connection, so every emit is appended to \<open>outbox\<close>. A server event invokes every
  listener registered for it, once each, in order.
\<close>

record socket =
  connected :: bool
  listeners :: "sock_event list"
  outbox :: "emit list"

definition socket_init :: socket where
  "socket_init = \<lparr>connected = False, listeners = [], outbox = []\<rparr>"

definition socket_on :: "sock_event \<Rightarrow> socket \<Rightarrow> socket" where
  [socket_defs]: "socket_on ev s = s\<lparr>listeners := listeners s @ [ev]\<rparr>"

text \<open>\<open>socket.off(ev)\<close> without a handler removes every listener of \<open>ev\<close>.\<close>

definition socket_off :: "sock_event \<Rightarrow> socket \<Rightarrow> socket" where
  [socket_defs]: "socket_off ev s = s\<lparr>listeners := filter (\<lambda>e. e \<noteq> ev) (listeners s)\<rparr>"

definition socket_emit :: "emit \<Rightarrow> socket \<Rightarrow> socket" where
  [socket_defs]: "socket_emit p s = s\<lparr>outbox := outbox s @ [p]\<rparr>"

definition socket_connect :: "socket \<Rightarrow> socket" where
  [socket_defs]: "socket_connect s = s\<lparr>connected := True\<rparr>"

definition socket_disconnect :: "socket \<Rightarrow> socket" where
  [socket_defs]: "socket_disconnect s = s\<lparr>connected := False\<rparr>"

text \<open>Delivering a server event runs the handler once per registered listener.\<close>

definition socket_fire :: "sock_event \<Rightarrow> ('w \<Rightarrow> 'w) \<Rightarrow> socket \<Rightarrow> 'w \<Rightarrow> 'w" where
  "socket_fire ev h s = h ^^ count_list (listeners s) ev"

lemma socket_init_sel [simp]:
  "connected socket_init = False" "listeners socket_init = []" "outbox socket_init = []"
  by (simp_all add: socket_init_def)

lemma socket_sel [simp]:
  "connected (socket_on ev s) = connected s"
  "listeners (socket_on ev s) = listeners s @ [ev]"
  "outbox (socket_on ev s) = outbox s"
  "connected (socket_off ev s) = connected s"
  "listeners (socket_off ev s) = filter (\<lambda>e. e \<noteq> ev) (listeners s)"
  "outbox (socket_off ev s) = outbox s"
  "connected (socket_emit p s) = connected s"
  "listeners (socket_emit p s) = listeners s"
  "outbox (socket_emit p s) = outbox s @ [p]"
  "connected (socket_connect s) = True"
  "listeners (socket_connect s) = listeners s"
  "outbox (socket_connect s) = outbox s"
  "connected (socket_disconnect s) = False"
  "listeners (socket_disconnect s) = listeners s"
  "outbox (socket_disconnect s) = outbox s"
  by (simp_all add: socket_defs)

lemma socket_fire_once:
  "count_list (listeners s) ev = 1 \<Longrightarrow> socket_fire ev h s w = h w"
  by (simp add: socket_fire_def)

lemma socket_fire_none:
  "ev \<notin> set (listeners s) \<Longrightarrow> socket_fire ev h s w = w"
  by (simp add: socket_fire_def count_list_0_iff)


end
