(* ===== verification/ChatsPage.thy ===== *)
theory ChatsPage
  imports Socket
begin

text \<open>
  The ChatsPage component of \<open>src/src/Chats Page/ChatsPage.js\<close>: its React state
  (\<open>page\<close>), the component instance together with the shared socket and the backend
  calls in flight (\<open>world\<close>), and one definition per handler, promise continuation
  and effect of the source. React state setters are \<open>update_page\<close>: they write the
  page while the component is mounted and do nothing after it unmounted; the socket
  and the backend are shared and keep reacting to a late continuation.
\<close>

subsection \<open>State\<close>

text \<open>The \<open>useState\<close> hooks of the component (lines 17--30); \<open>messagesEndRef\<close> only scrolls.\<close>

record page =
  user :: "user option"
  userChats :: "chat list"
  currentChat :: "chat option"
  chatMessages :: "message list"
  newMessage :: string
  showAlertModal :: bool
  alertModalType :: alert_type
  alertModalValue :: string
  showGroupChatCreateModal :: bool
  firstLoad :: bool

definition page_init :: page where
  "page_init = \<lparr>user = None, userChats = [], currentChat = None, chatMessages = [],
     newMessage = [], showAlertModal = False, alertModalType = Alert_success,
     alertModalValue = [], showGroupChatCreateModal = False, firstLoad = True\<rparr>"

datatype lifecycle = Before_mount | Mounted | Unmounted

text \<open>
  The component instance and its environment: the page state, the shared socket, the
  backend calls whose promises have not settled (\<open>pending\<close>), every call ever started
  (\<open>requests\<close>), the exceptions that escaped an event handler (\<open>uncaught\<close>), and the
  paths passed to react-router's \<open>navigate\<close> (\<open>navigations\<close>).
\<close>

record world =
  page :: page
  sock :: socket
  lifecycle :: lifecycle
  pending :: "request list"
  requests :: "request list"
  uncaught :: "js_error list"
  navigations :: "string list"

definition world_init :: world where
  "world_init = \<lparr>page = page_init, sock = socket_init, lifecycle = Before_mount,
     pending = [], requests = [], uncaught = [], navigations = []\<rparr>"

definition update_page :: "(page \<Rightarrow> page) \<Rightarrow> world \<Rightarrow> world" where
  "update_page f w = (if lifecycle w = Mounted then w\<lparr>page := f (page w)\<rparr> else w)"

definition update_sock :: "(socket \<Rightarrow> socket) \<Rightarrow> world \<Rightarrow> world" where
  "update_sock f w = w\<lparr>sock := f (sock w)\<rparr>"

definition issue :: "request \<Rightarrow> world \<Rightarrow> world" where
  "issue r w = w\<lparr>pending := pending w @ [r], requests := requests w @ [r]\<rparr>"

definition js_catch :: "world js_result \<Rightarrow> world" where
  [page_defs]: "js_catch r = (case r of Ok w \<Rightarrow> w | Throw e w \<Rightarrow> w\<lparr>uncaught := uncaught w @ [e]\<rparr>)"

subsection \<open>Handlers\<close>

text \<open>\<open>setAlert(show, type, value)\<close> (lines 33--39).\<close>

definition setAlert :: "bool \<Rightarrow> alert_type \<Rightarrow> string \<Rightarrow> world \<Rightarrow> world" where
  [page_defs]: "setAlert sh ty v w =
     (let w1 = update_page (\<lambda>p. p\<lparr>showAlertModal := sh\<rparr>) w
      in if sh then update_page (\<lambda>p. p\<lparr>alertModalType := ty, alertModalValue := v\<rparr>) w1 else w1)"

text \<open>
  \<open>fetchUserDetails\<close> (lines 42--50) runs until \<open>await getCurrentUser()\<close>; its two
  continuations follow. \<open>init_continue\<close> is the rest of \<open>init\<close> (line 126), run
  once \<open>fetchUserDetails\<close> has settled either way.
\<close>

definition fetchUserDetails_start :: "world \<Rightarrow> world" where
  [page_defs]: "fetchUserDetails_start w = issue Req_current_user w"

definition init_continue :: "world \<Rightarrow> world" where
  [page_defs]: "init_continue w = update_sock socket_connect w"

text \<open>\<open>getChatsFromBackend\<close> (lines 53--64) up to \<open>await getChatsOfUser\<close>.\<close>

definition getChatsFromBackend_start :: "world \<Rightarrow> world" where
  [page_defs]: "getChatsFromBackend_start w =
     (case user (page w) of None \<Rightarrow> w | Some u \<Rightarrow> issue (Req_chats (username u)) w)"

text \<open>\<open>getCurentChatMessages(chat)\<close> (lines 67--76), start and continuation.\<close>

definition getCurentChatMessages_start :: "chat \<Rightarrow> world \<Rightarrow> world" where
  [page_defs]: "getCurentChatMessages_start c w = issue (Req_messages c 20) w"

definition getCurentChatMessages_done :: "string + message list \<Rightarrow> world \<Rightarrow> world" where
  [page_defs]: "getCurentChatMessages_done r w =
     (case r of
        Inr msgs \<Rightarrow> update_page (\<lambda>p. p\<lparr>chatMessages := rev msgs\<rparr>) w
      | Inl err \<Rightarrow> setAlert True Alert_error ''Failed to Fetch Messages Of Chat''
                    (update_page (\<lambda>p. p\<lparr>chatMessages := []\<rparr>) w))"

text \<open>
  \<open>openChat(chat)\<close> (lines 79--83): \<open>setCurrentChat\<close> runs before \<open>user.username\<close> is
  read, so with no user the chat is set and a \<open>TypeError\<close> is thrown.
\<close>

definition openChat :: "chat \<Rightarrow> world \<Rightarrow> world js_result" where
  [page_defs]: "openChat c w =
     (let w1 = update_page (\<lambda>p. p\<lparr>currentChat := Some c\<rparr>) w
      in case user (page w1) of
           None \<Rightarrow> Throw TypeError w1
         | Some u \<Rightarrow> Ok (getCurentChatMessages_start c
                           (update_sock (socket_emit (Emit_join (username u) (chat_id c))) w1)))"

text \<open>The continuation of \<open>getChatsFromBackend\<close>: its \<open>try\<close> also catches a throw of \<open>openChat\<close>.\<close>

definition chats_failed :: "world \<Rightarrow> world" where
  [page_defs]: "chats_failed w =
     setAlert True Alert_error ''Failed to Fetch Chats'' (update_page (\<lambda>p. p\<lparr>userChats := []\<rparr>) w)"

definition getChatsFromBackend_done :: "string + chat list \<Rightarrow> world \<Rightarrow> world" where
  [page_defs]: "getChatsFromBackend_done r w =
     (case r of
        Inl err \<Rightarrow> chats_failed w
      | Inr data \<Rightarrow>
          (let w1 = update_page (\<lambda>p. p\<lparr>userChats := data\<rparr>) w
           in if data = [] then w1
              else (case openChat (hd data) w1 of Ok w2 \<Rightarrow> w2 | Throw e w2 \<Rightarrow> chats_failed w2)))"

text \<open>\<open>postMessage\<close> (lines 86--96): the payload reads \<open>user.user_id\<close> and
  \<open>currentChat.chat_id\<close> before \<open>emit\<close>, so a null user or chat throws with no effect.\<close>

definition postMessage :: "world \<Rightarrow> world js_result" where
  [page_defs]: "postMessage w =
     (let p = page w
      in if js_trim (newMessage p) = [] then Ok w
         else case user p of
                None \<Rightarrow> Throw TypeError w
              | Some u \<Rightarrow>
                  (case currentChat p of
                     None \<Rightarrow> Throw TypeError w
                   | Some c \<Rightarrow>
                       Ok (update_page (\<lambda>p. p\<lparr>newMessage := []\<rparr>)
                            (update_sock (socket_emit (Emit_message (user_id u) (first_name u)
                                (last_name u) (chat_id c) (newMessage p))) w))))"

text \<open>The two socket listeners (lines 107--114); \<open>scrollToBottom\<close> changes no state.\<close>

definition on_new_message :: "message \<Rightarrow> world \<Rightarrow> world" where
  [page_defs]: "on_new_message m w = update_page (\<lambda>p. p\<lparr>chatMessages := chatMessages p @ [m]\<rparr>) w"

definition on_error_sending_message :: "string \<Rightarrow> world \<Rightarrow> world" where
  [page_defs]: "on_error_sending_message e w = setAlert True Alert_error e w"

subsection \<open>Effects and lifecycle\<close>

text \<open>The socket effect, keyed on \<open>[user]\<close> (lines 106--120): set-up and clean-up.\<close>

definition socket_effect_setup :: "world \<Rightarrow> world" where
  [page_defs]: "socket_effect_setup w =
     update_sock (socket_on Error_sending_message) (update_sock (socket_on New_message) w)"

definition socket_effect_cleanup :: "world \<Rightarrow> world" where
  [page_defs]: "socket_effect_cleanup w =
     update_sock (socket_off Error_sending_message) (update_sock (socket_off New_message) w)"

text \<open>
  The chat-list effect, keyed on \<open>[user, firstLoad]\<close> (lines 136--141). Its body sets
  \<open>firstLoad\<close>, a dependency of the effect itself, so React runs the body once more
  after that render. \<open>firstLoad\<close> is only ever set to \<open>false\<close>, so the second run
  changes no dependency and there is no third.
\<close>

definition chats_effect_body :: "world \<Rightarrow> world" where
  [page_defs]: "chats_effect_body w =
     (if user (page w) \<noteq> None \<and> firstLoad (page w)
      then update_page (\<lambda>p. p\<lparr>firstLoad := False\<rparr>) (getChatsFromBackend_start w)
      else w)"

definition chats_effect :: "world \<Rightarrow> world" where
  [page_defs]: "chats_effect w =
     (let w1 = chats_effect_body w
      in if firstLoad (page w1) = firstLoad (page w) then w1 else chats_effect_body w1)"

text \<open>
  React's own rule for the same effect, without the unrolling: after a run of the body
  the dependency array \<open>[user, firstLoad]\<close> is compared with the previous one, and the
  body runs again while it differs. The measure is \<open>firstLoad\<close>, the only dependency
  the body writes, which it can only clear.
\<close>

definition effect_deps :: "world \<Rightarrow> user option \<times> bool" where
  "effect_deps w = (user (page w), firstLoad (page w))"

function chats_effect_loop :: "world \<Rightarrow> world" where
  "chats_effect_loop w =
     (let w1 = chats_effect_body w
      in if effect_deps w1 = effect_deps w then w1 else chats_effect_loop w1)"
  by pat_completeness auto
termination
  by (relation "measure (\<lambda>w. if firstLoad (page w) then 1 else 0)")
     (auto simp: effect_deps_def chats_effect_body_def update_page_def getChatsFromBackend_start_def
        issue_def split: option.splits if_splits)

text \<open>
  The commit after \<open>setUser\<close>: both effects that depend on \<open>user\<close> run again, the
  socket effect's clean-up first. An unmounted component commits nothing.
\<close>

definition commit_user :: "world \<Rightarrow> world" where
  [page_defs]: "commit_user w =
     (if lifecycle w = Mounted then chats_effect (socket_effect_setup (socket_effect_cleanup w)) else w)"

text \<open>The continuations of \<open>fetchUserDetails\<close>, each followed by the rest of \<open>init\<close>.\<close>

definition fetchUserDetails_current_user :: "string + string \<Rightarrow> world \<Rightarrow> world" where
  [page_defs]: "fetchUserDetails_current_user r w =
     (case r of
        Inl err \<Rightarrow> init_continue (setAlert True Alert_error err w)
      | Inr name \<Rightarrow> issue (Req_user_by_name name) w)"

definition fetchUserDetails_user :: "string + user \<Rightarrow> world \<Rightarrow> world" where
  [page_defs]: "fetchUserDetails_user r w =
     (case r of
        Inl err \<Rightarrow> init_continue (setAlert True Alert_error err w)
      | Inr u \<Rightarrow> commit_user (init_continue (update_page (\<lambda>p. p\<lparr>user := Some u\<rparr>) w)))"

text \<open>
  Mounting runs the three effects in declaration order: the listeners, \<open>init()\<close>
  up to its first \<open>await\<close>, and the chat-list effect (idle while \<open>user\<close> is null).
  Unmounting runs the clean-ups: listeners off, then \<open>socket.disconnect()\<close>.
\<close>

definition mount :: "world \<Rightarrow> world" where
  [page_defs]: "mount w =
     chats_effect (fetchUserDetails_start (socket_effect_setup (w\<lparr>lifecycle := Mounted\<rparr>)))"

definition unmount :: "world \<Rightarrow> world" where
  [page_defs]: "unmount w =
     (update_sock socket_disconnect (socket_effect_cleanup w))\<lparr>lifecycle := Unmounted\<rparr>"

text \<open>
  The Sign Out button (lines 172--184): \<open>await signOut()\<close>, then \<open>navigate("/")\<close>. The
  route \<open>/\<close> is the sign-in page, so navigating there unmounts ChatsPage (its clean-ups
  run); a navigation requested by an already unmounted page only changes the route. A
  rejected \<open>signOut\<close> is only logged with \<open>console.log\<close>.
\<close>

definition signOut_start :: "world \<Rightarrow> world" where
  [page_defs]: "signOut_start w = issue Req_sign_out w"

definition navigate :: "string \<Rightarrow> world \<Rightarrow> world" where
  "navigate path w =
     (let w1 = w\<lparr>navigations := navigations w @ [path]\<rparr>
      in if lifecycle w1 = Mounted then unmount w1 else w1)"

definition signOut_done :: "string + unit \<Rightarrow> world \<Rightarrow> world" where
  "signOut_done r w = (case r of Inr u \<Rightarrow> navigate ''/'' w | Inl err \<Rightarrow> w)"

text \<open>
  The other event bindings of the JSX: the alert's \<open>onClose\<close> (line 201), the group-chat
  modal's \<open>onClose\<close> (lines 211--213), the \<open>+\<close> button (lines 224--227, its
  \<open>console.log\<close> has no state), a chat row's \<open>onClick\<close> (lines 259--261), the message
  input's \<open>onChange\<close> (line 354) and the Send button (line 361). An exception thrown by a
  handler is reported by the browser and the updates made before it stay
  (\<open>js_catch\<close>). Each is a plain composition of the handlers above, so the simplifier
  unfolds it.
\<close>

definition onClose_alert :: "world \<Rightarrow> world" where
  [simp]: "onClose_alert w = update_page (\<lambda>p. p\<lparr>showAlertModal := False\<rparr>) w"

definition onClose_group_modal :: "world \<Rightarrow> world" where
  [simp]: "onClose_group_modal w = update_page (\<lambda>p. p\<lparr>showGroupChatCreateModal := False\<rparr>) w"

definition onClick_new_group :: "world \<Rightarrow> world" where
  [simp]: "onClick_new_group w = update_page (\<lambda>p. p\<lparr>showGroupChatCreateModal := True\<rparr>) w"

definition onClick_chat :: "chat \<Rightarrow> world \<Rightarrow> world" where
  [simp]: "onClick_chat c w = js_catch (openChat c w)"

definition onChange_message :: "string \<Rightarrow> world \<Rightarrow> world" where
  [simp]: "onChange_message s w = update_page (\<lambda>p. p\<lparr>newMessage := s\<rparr>) w"

definition onClick_send :: "world \<Rightarrow> world" where
  [simp]: "onClick_send w = js_catch (postMessage w)"

text \<open>Which continuation a settled promise runs.\<close>

fun resolve_request :: "request \<Rightarrow> response \<Rightarrow> world \<Rightarrow> world option" where
  "resolve_request Req_current_user (Resp_current_user r) w = Some (fetchUserDetails_current_user r w)"
| "resolve_request (Req_user_by_name n) (Resp_user r) w = Some (fetchUserDetails_user r w)"
| "resolve_request (Req_chats n) (Resp_chats r) w = Some (getChatsFromBackend_done r w)"
| "resolve_request (Req_messages c n) (Resp_messages r) w = Some (getCurentChatMessages_done r w)"
| "resolve_request Req_sign_out (Resp_sign_out r) w = Some (signOut_done r w)"
| "resolve_request q r w = None"

subsection \<open>Frame lemmas\<close>

text \<open>
  The three primitive updates are not unfolded by the handler proofs: these selector
  equations say what each writes, so that a handler's effect is computed field by field.
\<close>

lemma world_init_sel [simp]:
  "page world_init = page_init" "sock world_init = socket_init" "lifecycle world_init = Before_mount"
  "pending world_init = []" "requests world_init = []" "uncaught world_init = []"
  "navigations world_init = []"
  by (simp_all add: world_init_def)

lemma page_init_sel [simp]:
  "user page_init = None" "userChats page_init = []" "currentChat page_init = None"
  "chatMessages page_init = []" "newMessage page_init = []" "showAlertModal page_init = False"
  "showGroupChatCreateModal page_init = False" "firstLoad page_init = True"
  by (simp_all add: page_init_def)

lemma update_page_sel [simp]:
  "page (update_page f w) = (if lifecycle w = Mounted then f (page w) else page w)"
  "sock (update_page f w) = sock w"
  "lifecycle (update_page f w) = lifecycle w"
  "pending (update_page f w) = pending w"
  "requests (update_page f w) = requests w"
  "uncaught (update_page f w) = uncaught w"
  "navigations (update_page f w) = navigations w"
  by (simp_all add: update_page_def)

lemma update_sock_sel [simp]:
  "sock (update_sock f w) = f (sock w)"
  "page (update_sock f w) = page w"
  "lifecycle (update_sock f w) = lifecycle w"
  "pending (update_sock f w) = pending w"
  "requests (update_sock f w) = requests w"
  "uncaught (update_sock f w) = uncaught w"
  "navigations (update_sock f w) = navigations w"
  by (simp_all add: update_sock_def)

lemma issue_sel [simp]:
  "pending (issue r w) = pending w @ [r]"
  "requests (issue r w) = requests w @ [r]"
  "page (issue r w) = page w"
  "sock (issue r w) = sock w"
  "lifecycle (issue r w) = lifecycle w"
  "uncaught (issue r w) = uncaught w"
  "navigations (issue r w) = navigations w"
  by (simp_all add: issue_def)

text \<open>Unmounting and sign-out: the page state and the calls are kept, the socket is
  closed and its listeners removed.\<close>

lemma unmount_sel [simp]:
  "page (unmount w) = page w" "lifecycle (unmount w) = Unmounted"
  "pending (unmount w) = pending w" "requests (unmount w) = requests w"
  "uncaught (unmount w) = uncaught w" "navigations (unmount w) = navigations w"
  "connected (sock (unmount w)) = False" "outbox (sock (unmount w)) = outbox (sock w)"
  "listeners (sock (unmount w)) =
     filter (\<lambda>e. e \<noteq> Error_sending_message) (filter (\<lambda>e. e \<noteq> New_message) (listeners (sock w)))"
  by (simp_all add: unmount_def socket_effect_cleanup_def)

lemma signOut_done_sel [simp]:
  "page (signOut_done r w) = page w" "pending (signOut_done r w) = pending w"
  "requests (signOut_done r w) = requests w" "uncaught (signOut_done r w) = uncaught w"
  "outbox (sock (signOut_done r w)) = outbox (sock w)"
  "lifecycle (signOut_done r w) = (if lifecycle w = Mounted \<and> \<not> isl r then Unmounted else lifecycle w)"
  "connected (sock (signOut_done r w)) = (connected (sock w) \<and> \<not> (lifecycle w = Mounted \<and> \<not> isl r))"
  "listeners (sock (signOut_done r w)) =
     (if lifecycle w = Mounted \<and> \<not> isl r
      then filter (\<lambda>e. e \<noteq> Error_sending_message) (filter (\<lambda>e. e \<noteq> New_message) (listeners (sock w)))
      else listeners (sock w))"
  "navigations (signOut_done r w) = (if isl r then navigations w else navigations w @ [''/''])"
  by (simp_all add: signOut_done_def navigate_def Let_def split: sum.splits)

text \<open>No handler but mounting and unmounting changes the lifecycle.\<close>

lemma lifecycle_handlers [simp]:
  "lifecycle (setAlert sh ty v w) = lifecycle w"
  "lifecycle (fetchUserDetails_start w) = lifecycle w"
  "lifecycle (init_continue w) = lifecycle w"
  "lifecycle (getChatsFromBackend_start w) = lifecycle w"
  "lifecycle (getCurentChatMessages_start c w) = lifecycle w"
  "lifecycle (getCurentChatMessages_done r w) = lifecycle w"
  "lifecycle (js_state (openChat c w)) = lifecycle w"
  "lifecycle (chats_failed w) = lifecycle w"
  "lifecycle (js_state (postMessage w)) = lifecycle w"
  "lifecycle (on_new_message m w) = lifecycle w"
  "lifecycle (on_error_sending_message e w) = lifecycle w"
  "lifecycle (socket_effect_setup w) = lifecycle w"
  "lifecycle (socket_effect_cleanup w) = lifecycle w"
  "lifecycle (chats_effect w) = lifecycle w"
  "lifecycle (commit_user w) = lifecycle w"
  by (simp_all add: page_defs Let_def split: option.splits sum.splits)

lemma lifecycle_continuations [simp]:
  "lifecycle (getChatsFromBackend_done rc w) = lifecycle w"
  "lifecycle (fetchUserDetails_current_user rn w) = lifecycle w"
  "lifecycle (fetchUserDetails_user ru w) = lifecycle w"
  by (auto simp: page_defs Let_def split: option.splits sum.splits js_result.splits)

text \<open>Only the socket effect registers or removes listeners.\<close>

lemma listeners_handlers [simp]:
  "listeners (sock (setAlert sh ty v w)) = listeners (sock w)"
  "listeners (sock (init_continue w)) = listeners (sock w)"
  "listeners (sock (getChatsFromBackend_start w)) = listeners (sock w)"
  "listeners (sock (getCurentChatMessages_start c w)) = listeners (sock w)"
  "listeners (sock (getCurentChatMessages_done r w)) = listeners (sock w)"
  "listeners (sock (js_state (openChat c w))) = listeners (sock w)"
  "listeners (sock (chats_failed w)) = listeners (sock w)"
  "listeners (sock (js_state (postMessage w))) = listeners (sock w)"
  "listeners (sock (on_new_message m w)) = listeners (sock w)"
  "listeners (sock (on_error_sending_message e w)) = listeners (sock w)"
  "listeners (sock (chats_effect w)) = listeners (sock w)"
  by (simp_all add: page_defs socket_defs Let_def split: option.splits sum.splits)

lemma listeners_continuations [simp]:
  "listeners (sock (getChatsFromBackend_done rc w)) = listeners (sock w)"
  "listeners (sock (fetchUserDetails_current_user rn w)) = listeners (sock w)"
  by (auto simp: page_defs socket_defs Let_def split: option.splits sum.splits js_result.splits)

lemma user_handlers [simp]:
  "user (page (setAlert sh ty v w)) = user (page w)"
  "user (page (init_continue w)) = user (page w)"
  "user (page (getChatsFromBackend_start w)) = user (page w)"
  "user (page (getCurentChatMessages_start c w)) = user (page w)"
  "user (page (getCurentChatMessages_done r w)) = user (page w)"
  "user (page (js_state (openChat c w))) = user (page w)"
  "user (page (chats_failed w)) = user (page w)"
  "user (page (js_state (postMessage w))) = user (page w)"
  "user (page (on_new_message m w)) = user (page w)"
  "user (page (on_error_sending_message e w)) = user (page w)"
  "user (page (socket_effect_setup w)) = user (page w)"
  "user (page (socket_effect_cleanup w)) = user (page w)"
  "user (page (chats_effect w)) = user (page w)"
  "user (page (commit_user w)) = user (page w)"
  by (simp_all add: page_defs Let_def split: option.splits sum.splits)

lemma connected_handlers [simp]:
  "connected (sock (setAlert sh ty v w)) = connected (sock w)"
  "connected (sock (getChatsFromBackend_start w)) = connected (sock w)"
  "connected (sock (getCurentChatMessages_start c w)) = connected (sock w)"
  "connected (sock (getCurentChatMessages_done r w)) = connected (sock w)"
  "connected (sock (js_state (openChat c w))) = connected (sock w)"
  "connected (sock (chats_failed w)) = connected (sock w)"
  "connected (sock (js_state (postMessage w))) = connected (sock w)"
  "connected (sock (on_new_message m w)) = connected (sock w)"
  "connected (sock (on_error_sending_message e w)) = connected (sock w)"
  "connected (sock (socket_effect_setup w)) = connected (sock w)"
  "connected (sock (socket_effect_cleanup w)) = connected (sock w)"
  "connected (sock (chats_effect w)) = connected (sock w)"
  "connected (sock (commit_user w)) = connected (sock w)"
  by (simp_all add: page_defs socket_defs Let_def split: option.splits sum.splits)

lemma pending_handlers [simp]:
  "pending (setAlert sh ty v w) = pending w"
  "pending (getCurentChatMessages_done r w) = pending w"
  "pending (chats_failed w) = pending w"
  "pending (js_state (postMessage w)) = pending w"
  "pending (on_new_message m w) = pending w"
  "pending (on_error_sending_message e w) = pending w"
  "pending (socket_effect_setup w) = pending w"
  "pending (socket_effect_cleanup w) = pending w"
  "pending (init_continue w) = pending w"
  by (simp_all add: page_defs Let_def split: option.splits sum.splits)

lemma pending_openChat:
  "pending (js_state (openChat c w)) =
     pending w @ (if user (page w) = None then [] else [Req_messages c 20])"
  by (auto simp: openChat_def Let_def getCurentChatMessages_start_def split: option.splits)

lemma chats_done_frame [simp]:
  "connected (sock (getChatsFromBackend_done rc w)) = connected (sock w)"
  "user (page (getChatsFromBackend_done rc w)) = user (page w)"
  by (auto simp: getChatsFromBackend_done_def openChat_def getCurentChatMessages_start_def chats_failed_def Let_def split: sum.splits option.splits)

lemma user_reqs_handlers [simp]:
  "filter is_user_req (pending (getChatsFromBackend_start w)) = filter is_user_req (pending w)"
  "filter is_user_req (pending (getCurentChatMessages_start c w)) = filter is_user_req (pending w)"
  "filter is_user_req (pending (js_state (openChat c w))) = filter is_user_req (pending w)"
  "filter is_user_req (pending (chats_effect w)) = filter is_user_req (pending w)"
  "filter is_user_req (pending (commit_user w)) = filter is_user_req (pending w)"
  "filter is_user_req (pending (getChatsFromBackend_done rc w)) = filter is_user_req (pending w)"
  by (auto simp: page_defs Let_def pending_openChat split: option.splits sum.splits js_result.splits)

lemma funpow_on_new_message:
  "(on_new_message m ^^ n) w =
     update_page (\<lambda>p. p\<lparr>chatMessages := chatMessages p @ replicate n m\<rparr>) w"
  by (induction n) (auto simp: on_new_message_def update_page_def replicate_append_same)

lemma funpow_on_error_sending_message:
  "(on_error_sending_message e ^^ n) w = (if n = 0 then w else on_error_sending_message e w)"
  by (induction n) (auto simp: on_error_sending_message_def setAlert_def update_page_def)

lemma firstLoad_handlers [simp]:
  "firstLoad (page (setAlert sh ty v w)) = firstLoad (page w)"
  "firstLoad (page (init_continue w)) = firstLoad (page w)"
  "firstLoad (page (getChatsFromBackend_start w)) = firstLoad (page w)"
  "firstLoad (page (getCurentChatMessages_start c w)) = firstLoad (page w)"
  "firstLoad (page (getCurentChatMessages_done r w)) = firstLoad (page w)"
  "firstLoad (page (js_state (openChat c w))) = firstLoad (page w)"
  "firstLoad (page (chats_failed w)) = firstLoad (page w)"
  "firstLoad (page (js_state (postMessage w))) = firstLoad (page w)"
  "firstLoad (page (on_new_message m w)) = firstLoad (page w)"
  "firstLoad (page (on_error_sending_message e w)) = firstLoad (page w)"
  "firstLoad (page (socket_effect_setup w)) = firstLoad (page w)"
  "firstLoad (page (socket_effect_cleanup w)) = firstLoad (page w)"
  by (simp_all add: page_defs Let_def split: option.splits sum.splits)

lemma chat_reqs_handlers [simp]:
  "filter is_req_chats (requests (setAlert sh ty v w)) = filter is_req_chats (requests w)"
  "filter is_req_chats (requests (init_continue w)) = filter is_req_chats (requests w)"
  "filter is_req_chats (requests (getCurentChatMessages_start c w)) = filter is_req_chats (requests w)"
  "filter is_req_chats (requests (getCurentChatMessages_done r w)) = filter is_req_chats (requests w)"
  "filter is_req_chats (requests (js_state (openChat c w))) = filter is_req_chats (requests w)"
  "filter is_req_chats (requests (chats_failed w)) = filter is_req_chats (requests w)"
  "filter is_req_chats (requests (js_state (postMessage w))) = filter is_req_chats (requests w)"
  "filter is_req_chats (requests (on_new_message m w)) = filter is_req_chats (requests w)"
  "filter is_req_chats (requests (on_error_sending_message e w)) = filter is_req_chats (requests w)"
  "filter is_req_chats (requests (socket_effect_setup w)) = filter is_req_chats (requests w)"
  "filter is_req_chats (requests (socket_effect_cleanup w)) = filter is_req_chats (requests w)"
  by (simp_all add: page_defs Let_def split: option.splits sum.splits)

lemma chats_done_chats_frame [simp]:
  "firstLoad (page (getChatsFromBackend_done rc w)) = firstLoad (page w)"
  "filter is_req_chats (requests (getChatsFromBackend_done rc w)) = filter is_req_chats (requests w)"
  by (auto simp: getChatsFromBackend_done_def openChat_def getCurentChatMessages_start_def chats_failed_def
      Let_def split: sum.splits option.splits)

lemma js_catch_sel [simp]:
  "page (js_catch x) = page (js_state x)" "sock (js_catch x) = sock (js_state x)"
  "lifecycle (js_catch x) = lifecycle (js_state x)" "pending (js_catch x) = pending (js_state x)"
  "requests (js_catch x) = requests (js_state x)"
  by (cases x; simp add: js_catch_def)+

lemma view_handlers [simp]:
  "currentChat (page (setAlert sh ty v w)) = currentChat (page w)"
  "chatMessages (page (setAlert sh ty v w)) = chatMessages (page w)"
  "currentChat (page (chats_failed w)) = currentChat (page w)"
  "chatMessages (page (chats_failed w)) = chatMessages (page w)"
  "currentChat (page (js_state (postMessage w))) = currentChat (page w)"
  "chatMessages (page (js_state (postMessage w))) = chatMessages (page w)"
  "currentChat (page (chats_effect w)) = currentChat (page w)"
  "chatMessages (page (chats_effect w)) = chatMessages (page w)"
  "currentChat (page (commit_user w)) = currentChat (page w)"
  "chatMessages (page (commit_user w)) = chatMessages (page w)"
  "currentChat (page (fetchUserDetails_current_user rn w)) = currentChat (page w)"
  "chatMessages (page (fetchUserDetails_current_user rn w)) = chatMessages (page w)"
  "currentChat (page (fetchUserDetails_user ru w)) = currentChat (page w)"
  "chatMessages (page (fetchUserDetails_user ru w)) = chatMessages (page w)"
  by (simp_all add: page_defs Let_def split: option.splits sum.splits)

lemma uncaught_handlers [simp]:
  "uncaught (setAlert sh ty v w) = uncaught w"
  "uncaught (init_continue w) = uncaught w"
  "uncaught (getChatsFromBackend_start w) = uncaught w"
  "uncaught (getCurentChatMessages_start c w) = uncaught w"
  "uncaught (getCurentChatMessages_done r w) = uncaught w"
  "uncaught (js_state (openChat c w)) = uncaught w"
  "uncaught (chats_failed w) = uncaught w"
  "uncaught (js_state (postMessage w)) = uncaught w"
  "uncaught (on_new_message m w) = uncaught w"
  "uncaught (on_error_sending_message e w) = uncaught w"
  "uncaught (socket_effect_setup w) = uncaught w"
  "uncaught (socket_effect_cleanup w) = uncaught w"
  "uncaught (signOut_start w) = uncaught w"
  "uncaught (chats_effect w) = uncaught w"
  "uncaught (commit_user w) = uncaught w"
  "uncaught (mount w) = uncaught w"
  "uncaught (unmount w) = uncaught w"
  by (simp_all add: page_defs Let_def split: option.splits sum.splits)

lemma uncaught_continuations [simp]:
  "uncaught (getChatsFromBackend_done rc w) = uncaught w"
  "uncaught (fetchUserDetails_current_user rn w) = uncaught w"
  "uncaught (fetchUserDetails_user ru w) = uncaught w"
  by (auto simp: page_defs Let_def split: option.splits sum.splits js_result.splits)

text \<open>The chat-list effect body: it reads \<open>user\<close> and only ever clears \<open>firstLoad\<close>,
  and once \<open>firstLoad\<close> is false it does nothing.\<close>

lemma chats_effect_body_idle: "\<not> firstLoad (page w) \<Longrightarrow> chats_effect_body w = w"
  by (simp add: chats_effect_body_def)

lemma chats_effect_body_sel [simp]:
  "user (page (chats_effect_body w)) = user (page w)"
  "lifecycle (chats_effect_body w) = lifecycle w"
  "firstLoad (page (chats_effect_body w)) =
     (firstLoad (page w) \<and> \<not> (user (page w) \<noteq> None \<and> lifecycle w = Mounted))"
  by (auto simp: chats_effect_body_def page_defs split: option.splits)

text \<open>Only \<open>openChat\<close> emits \<open>join\<close> and sets the open chat, and only the chat-list
  continuation writes the chat list: every other handler keeps them.\<close>

lemma chat_list_frame [simp]:
  "userChats (page (setAlert sh ty v w)) = userChats (page w)"
  "userChats (page (init_continue w)) = userChats (page w)"
  "userChats (page (getCurentChatMessages_done r w)) = userChats (page w)"
  "userChats (page (on_new_message m w)) = userChats (page w)"
  "userChats (page (on_error_sending_message e w)) = userChats (page w)"
  "userChats (page (chats_effect w)) = userChats (page w)"
  "userChats (page (commit_user w)) = userChats (page w)"
  "userChats (page (fetchUserDetails_current_user rn w)) = userChats (page w)"
  "userChats (page (fetchUserDetails_user ru w)) = userChats (page w)"
  "currentChat (page (init_continue w)) = currentChat (page w)"
  "currentChat (page (getCurentChatMessages_done r w)) = currentChat (page w)"
  "currentChat (page (on_new_message m w)) = currentChat (page w)"
  "currentChat (page (on_error_sending_message e w)) = currentChat (page w)"
  "outbox (sock (setAlert sh ty v w)) = outbox (sock w)"
  "outbox (sock (chats_failed w)) = outbox (sock w)"
  "outbox (sock (init_continue w)) = outbox (sock w)"
  "outbox (sock (getCurentChatMessages_done r w)) = outbox (sock w)"
  "outbox (sock (on_new_message m w)) = outbox (sock w)"
  "outbox (sock (on_error_sending_message e w)) = outbox (sock w)"
  "outbox (sock (chats_effect w)) = outbox (sock w)"
  "outbox (sock (commit_user w)) = outbox (sock w)"
  "outbox (sock (fetchUserDetails_current_user rn w)) = outbox (sock w)"
  "outbox (sock (fetchUserDetails_user ru w)) = outbox (sock w)"
  by (simp_all add: page_defs socket_defs Let_def split: option.splits sum.splits)

text \<open>
  The unrolled chat-list effect is React's rule: re-running the body while the
  dependency array changes gives the same world, since \<open>firstLoad\<close> only goes from
  true to false.
\<close>

lemma chats_effect_loop_eq: "chats_effect_loop w = chats_effect w"
proof (cases "effect_deps (chats_effect_body w) = effect_deps w")
  case True
  then show ?thesis
    by (subst chats_effect_loop.simps) (simp add: chats_effect_def effect_deps_def)
next
  case False
  then have "\<not> firstLoad (page (chats_effect_body w))"
    using chats_effect_body_idle [of w] by (auto simp: effect_deps_def)
  then have idle: "chats_effect_body (chats_effect_body w) = chats_effect_body w"
    by (rule chats_effect_body_idle)
  with False show ?thesis
    by (subst chats_effect_loop.simps, subst chats_effect_loop.simps)
       (simp add: chats_effect_def Let_def)
qed

end
