(* ===== verification/Session.thy ===== *)
theory Session
  imports ChatsPage
begin

text \<open>
  The event-driven session of the page: every event the single JavaScript event loop
  can dispatch to it (mount and unmount, a backend promise settling, a server push on
  the socket, a user interaction), one step function over \<open>world\<close>, runs of event
  lists, the inductive set of reachable worlds, and the invariants every step keeps.
  A step is \<open>None\<close> when the event cannot occur in that world (a click on an
  unmounted page, a push on a closed socket, a promise that is not pending).
\<close>

datatype event =
    Mount
  | Unmount
  | Settle nat response
  | Push_new_message message
  | Push_send_error string
  | Type_message string
  | Click_send
  | Click_chat nat
  | Close_alert
  | Open_group_modal
  | Close_group_modal
  | Click_sign_out

definition ui :: "world \<Rightarrow> world \<Rightarrow> world option" where
  "ui w w' = (if lifecycle w = Mounted then Some w' else None)"

fun step :: "world \<Rightarrow> event \<Rightarrow> world option" where
  "step w Mount = (if lifecycle w = Before_mount then Some (mount w) else None)"
| "step w Unmount = (if lifecycle w = Mounted then Some (unmount w) else None)"
| "step w (Settle i r) =
     (if i < length (pending w)
      then resolve_request (pending w ! i) r (w\<lparr>pending := remove_nth i (pending w)\<rparr>)
      else None)"
| "step w (Push_new_message m) =
     (if connected (sock w) then Some (socket_fire New_message (on_new_message m) (sock w) w)
      else None)"
| "step w (Push_send_error e) =
     (if connected (sock w)
      then Some (socket_fire Error_sending_message (on_error_sending_message e) (sock w) w)
      else None)"
| "step w (Type_message s) = ui w (onChange_message s w)"
| "step w Click_send = ui w (onClick_send w)"
| "step w (Click_chat i) =
     (if i < length (userChats (page w)) then ui w (onClick_chat (userChats (page w) ! i) w)
      else None)"
| "step w Close_alert = ui w (onClose_alert w)"
| "step w Open_group_modal = ui w (onClick_new_group w)"
| "step w Close_group_modal = ui w (onClose_group_modal w)"
| "step w Click_sign_out = ui w (signOut_start w)"

fun run :: "world \<Rightarrow> event list \<Rightarrow> world option" where
  "run w [] = Some w"
| "run w (e # es) = (case step w e of None \<Rightarrow> None | Some w' \<Rightarrow> run w' es)"

subsection \<open>Invariants\<close>

text \<open>
  The listeners the socket effect keeps registered: exactly one per event while the
  page is mounted, none before mounting and after unmounting.
\<close>

definition listeners_inv :: "world \<Rightarrow> bool" where
  "listeners_inv w \<longleftrightarrow>
     listeners (sock w) = (if lifecycle w = Mounted then [New_message, Error_sending_message] else [])"

text \<open>
  The start-up chain \<open>init\<close>: before mounting nothing has happened; at most one of
  \<open>getCurrentUser\<close> / \<open>getUserByUsername\<close> is in flight; once the socket is connected
  or the user is known, that chain has finished.
\<close>

definition conn_inv :: "world \<Rightarrow> bool" where
  "conn_inv w \<longleftrightarrow>
     (lifecycle w = Before_mount \<longrightarrow> w = world_init) \<and>
     length (filter is_user_req (pending w)) \<le> 1 \<and>
     (connected (sock w) \<or> user (page w) \<noteq> None \<longrightarrow> filter is_user_req (pending w) = [])"

text \<open>
  Who a packet speaks for: a join carries the signed-in user's \<open>username\<close>, a message
  their id and names and a content that is not blank.
\<close>

fun emit_by :: "user option \<Rightarrow> emit \<Rightarrow> bool" where
  "emit_by (Some u) (Emit_join n c) \<longleftrightarrow> n = username u"
| "emit_by (Some u) (Emit_message uid f l c txt) \<longleftrightarrow>
     uid = user_id u \<and> f = first_name u \<and> l = last_name u \<and> \<not> list_all js_ws txt"
| "emit_by None p \<longleftrightarrow> False"

text \<open>
  Page consistency: until the user is known there is no chat list, no open chat, no
  packet sent and no backend call but the start-up chain; every packet sent speaks for
  the signed-in user.
\<close>

definition page_inv :: "world \<Rightarrow> bool" where
  "page_inv w \<longleftrightarrow>
     (user (page w) = None \<longrightarrow>
        userChats (page w) = [] \<and> currentChat (page w) = None \<and> firstLoad (page w) \<and>
        outbox (sock w) = [] \<and> (\<forall>q \<in> set (pending w). is_user_req q \<or> q = Req_sign_out)) \<and>
     (\<forall>p \<in> set (outbox (sock w)). emit_by (user (page w)) p)"

text \<open>\<open>firstLoad\<close> is false exactly when \<open>getChatsOfUser\<close> has been called, once.\<close>

definition chats_inv :: "world \<Rightarrow> bool" where
  "chats_inv w \<longleftrightarrow> length (filter is_req_chats (requests w)) = (if firstLoad (page w) then 0 else 1)"

text \<open>
  Backend calls: the calls still awaited are among the calls made, counted with their
  multiplicity, and every history fetch asks for the 20 most recent messages
  (\<open>getMessagesOfChat(chat.chat_id, 20)\<close>, line 68).
\<close>

fun limit_ok :: "request \<Rightarrow> bool" where
  "limit_ok (Req_messages c n) \<longleftrightarrow> n = 20"
| "limit_ok q \<longleftrightarrow> True"

definition calls_inv :: "world \<Rightarrow> bool" where
  "calls_inv w \<longleftrightarrow> mset (pending w) \<subseteq># mset (requests w) \<and> list_all limit_ok (requests w)"

text \<open>
  Rooms: while the page is mounted every \<open>join\<close> sent and the open chat name a chat of
  the user's list (\<open>rooms_listed\<close>), and while \<open>getChatsOfUser\<close> is awaited there is no
  list, no open chat and no join (\<open>no_rooms\<close>).
\<close>

definition rooms_listed :: "world \<Rightarrow> bool" where
  "rooms_listed w \<longleftrightarrow>
     (\<forall>n cid. Emit_join n cid \<in> set (outbox (sock w)) \<longrightarrow> cid \<in> chat_id ` set (userChats (page w))) \<and>
     (\<forall>c. currentChat (page w) = Some c \<longrightarrow> c \<in> set (userChats (page w)))"

definition no_rooms :: "world \<Rightarrow> bool" where
  "no_rooms w \<longleftrightarrow>
     userChats (page w) = [] \<and> currentChat (page w) = None \<and>
     (\<forall>n cid. Emit_join n cid \<notin> set (outbox (sock w)))"

definition room_inv :: "world \<Rightarrow> bool" where
  "room_inv w \<longleftrightarrow>
     (lifecycle w = Mounted \<longrightarrow> rooms_listed w) \<and>
     (\<forall>q \<in> set (pending w). is_req_chats q \<longrightarrow> no_rooms w)"

text \<open>A mounted page whose user is known has a connected socket.\<close>

definition live_inv :: "world \<Rightarrow> bool" where
  "live_inv w \<longleftrightarrow> (lifecycle w = Mounted \<and> user (page w) \<noteq> None \<longrightarrow> connected (sock w))"

text \<open>Whether a settled value has the shape the awaiting call expects.\<close>

fun resp_matches :: "request \<Rightarrow> response \<Rightarrow> bool" where
  "resp_matches Req_current_user (Resp_current_user r) = True"
| "resp_matches (Req_user_by_name n) (Resp_user r) = True"
| "resp_matches (Req_chats n) (Resp_chats r) = True"
| "resp_matches (Req_messages c n) (Resp_messages r) = True"
| "resp_matches Req_sign_out (Resp_sign_out r) = True"
| "resp_matches q r = False"

inductive reachable :: "world \<Rightarrow> bool" where
  init: "reachable world_init"
| step: "reachable w \<Longrightarrow> step w e = Some w' \<Longrightarrow> reachable w'"

text \<open>The equations that evaluate a run on concrete events, used by the scenarios.\<close>

lemmas run_eval = ui_def remove_nth_def socket_fire_def signOut_done_def navigate_def

lemma run_reachable: "reachable w \<Longrightarrow> run w es = Some w' \<Longrightarrow> reachable w'"
  by (induction es arbitrary: w) (auto split: option.splits intro: reachable.step)

lemma run_append: "run w (es @ fs) = (case run w es of None \<Rightarrow> None | Some w' \<Rightarrow> run w' fs)"
  by (induction es arbitrary: w) (auto split: option.splits)

lemma run_init_reachable: "run world_init es = Some w \<Longrightarrow> reachable w"
  by (rule run_reachable [OF reachable.init])

text \<open>The invariant rule: a property of \<open>world_init\<close> that every step from a reachable
  world keeps holds of every reachable world.\<close>

lemma reachable_invariant:
  assumes "reachable w" "P world_init"
    and "\<And>w e w'. reachable w \<Longrightarrow> P w \<Longrightarrow> step w e = Some w' \<Longrightarrow> P w'"
  shows "P w"
  using assms(1) by (induction rule: reachable.induct) (use assms(2,3) in blast)+

lemma step_SettleD:
  "step w (Settle i r) = Some w' \<Longrightarrow>
   i < length (pending w) \<and> resolve_request (pending w ! i) r (w\<lparr>pending := remove_nth i (pending w)\<rparr>) = Some w'"
  by (simp split: if_splits)

lemma resolve_request_listeners:
  "resolve_request q r w = Some w' \<Longrightarrow> listeners_inv w \<Longrightarrow> listeners_inv w'"
  by (cases q; cases r)
     (auto simp: listeners_inv_def fetchUserDetails_user_def commit_user_def socket_effect_setup_def
        socket_effect_cleanup_def socket_defs split: sum.splits if_splits)

lemma step_listeners_inv:
  assumes "step w e = Some w'" "listeners_inv w"
  shows "listeners_inv w'"
  using assms
proof (cases e)
  case (Settle i r)
  with assms have "i < length (pending w)"
    and "resolve_request (pending w ! i) r (w\<lparr>pending := remove_nth i (pending w)\<rparr>) = Some w'"
    by (auto split: if_splits)
  moreover from assms(2) have "listeners_inv (w\<lparr>pending := remove_nth i (pending w)\<rparr>)"
    by (simp add: listeners_inv_def)
  ultimately show ?thesis
    by (blast intro: resolve_request_listeners)
qed (auto simp: listeners_inv_def ui_def mount_def unmount_def socket_effect_setup_def signOut_start_def
        socket_effect_cleanup_def fetchUserDetails_start_def socket_defs socket_fire_def split: if_splits)
lemma resolve_request_conn_inv:
  assumes "i < length (pending w)" "conn_inv w"
    and "resolve_request (pending w ! i) r (w\<lparr>pending := remove_nth i (pending w)\<rparr>) = Some w'"
  shows "conn_inv w'"
proof -
  let ?q = "pending w ! i" and ?w0 = "w\<lparr>pending := remove_nth i (pending w)\<rparr>"
  have cnt: "length (filter is_user_req (pending w)) =
      length (filter is_user_req (pending ?w0)) + (if is_user_req ?q then 1 else 0)"
    using assms(1) by (simp add: filter_remove_nth)
  have nb: "lifecycle w \<noteq> Before_mount"
    using assms(1,2) by (auto simp: conn_inv_def world_init_def)
  show ?thesis
  proof (cases "is_user_req ?q")
    case True
    with cnt assms(2) have "filter is_user_req (pending ?w0) = []" and "\<not> connected (sock w)"
      and "user (page w) = None"
      by (auto simp: conn_inv_def)
    with True assms(3) nb show ?thesis
      by (cases ?q; cases r)
         (auto simp: conn_inv_def page_defs socket_defs split: sum.splits)
  next
    case False
    with cnt assms(2) have "length (filter is_user_req (pending ?w0)) \<le> 1"
      and "connected (sock w) \<or> user (page w) \<noteq> None \<longrightarrow> filter is_user_req (pending ?w0) = []"
      by (auto simp: conn_inv_def)
    with False assms(3) nb show ?thesis
      by (cases ?q; cases r) (auto simp: conn_inv_def split: if_splits)
  qed
qed

lemma world_init_conn_inv: "conn_inv world_init"
  by (simp add: conn_inv_def)

lemma step_conn_inv:
  assumes "step w e = Some w'" "conn_inv w"
  shows "conn_inv w'"
  using assms
proof (cases e)
  case Mount
  with assms show ?thesis
    by (auto simp: conn_inv_def mount_def page_defs split: if_splits)
next
  case (Settle i r)
  with assms step_SettleD [of w i r w'] show ?thesis
    by (metis resolve_request_conn_inv)
next
  case (Push_new_message m)
  with assms show ?thesis
    by (auto simp: conn_inv_def socket_fire_def funpow_frame split: if_splits)
next
  case (Push_send_error x)
  with assms show ?thesis
    by (auto simp: conn_inv_def socket_fire_def funpow_frame split: if_splits)
next
  case Click_send
  with assms show ?thesis
    by (auto simp: conn_inv_def ui_def page_defs Let_def split: if_splits option.splits)
next
  case (Click_chat i)
  with assms show ?thesis
    by (auto simp: conn_inv_def ui_def page_defs Let_def split: if_splits option.splits)
qed (auto simp: conn_inv_def ui_def page_defs split: if_splits)

lemma world_init_listeners_inv: "listeners_inv world_init"
  by (simp add: listeners_inv_def)

lemma reachable_listeners_inv: "reachable w \<Longrightarrow> listeners_inv w"
  by (erule reachable_invariant) (rule world_init_listeners_inv, blast intro: step_listeners_inv)

lemma reachable_conn_inv: "reachable w \<Longrightarrow> conn_inv w"
  by (erule reachable_invariant) (rule world_init_conn_inv, blast intro: step_conn_inv)

lemma reachable_mount: "reachable (mount world_init)"
  by (rule reachable.step [OF reachable.init, of Mount]) simp

lemma resolve_request_page_inv:
  assumes "i < length (pending w)" "page_inv w" "conn_inv w"
    and "resolve_request (pending w ! i) r (w\<lparr>pending := remove_nth i (pending w)\<rparr>) = Some w'"
  shows "page_inv w'"
proof -
  let ?q = "pending w ! i" and ?w0 = "w\<lparr>pending := remove_nth i (pending w)\<rparr>"
  have q: "?q \<in> set (pending w)" using assms(1) by simp
  have rm: "set (pending ?w0) \<subseteq> set (pending w)" by (simp add: set_remove_nth)
  show ?thesis
  proof (cases "user (page w)")
    case None
    with assms(2) q rm have "is_user_req ?q \<or> ?q = Req_sign_out"
      and "\<forall>x \<in> set (pending ?w0). is_user_req x \<or> x = Req_sign_out"
      by (auto simp: page_inv_def)
    with None assms(2,4) show ?thesis
      by (cases ?q; cases r)
         (auto simp: page_inv_def page_defs split: sum.splits if_splits)
  next
    case (Some u)
    with assms(3) q have "\<not> is_user_req ?q"
      by (auto simp: conn_inv_def filter_empty_conv)
    with Some assms(2,4) show ?thesis
      by (cases ?q; cases r)
         (auto simp: page_inv_def page_defs Let_def split: sum.splits option.splits if_splits)
  qed
qed


lemma step_page_inv:
  assumes "step w e = Some w'" "page_inv w" "conn_inv w"
  shows "page_inv w'"
  using assms
proof (cases e)
  case Mount
  with assms show ?thesis
    by (auto simp: page_inv_def conn_inv_def mount_def page_defs split: if_splits)
next
  case (Settle i r)
  with assms step_SettleD [of w i r w'] show ?thesis
    by (metis resolve_request_page_inv)
next
  case (Push_new_message m)
  with assms show ?thesis
    by (auto simp: page_inv_def socket_fire_def funpow_on_new_message split: if_splits)
next
  case (Push_send_error x)
  with assms show ?thesis
    by (auto simp: page_inv_def socket_fire_def funpow_on_error_sending_message page_defs
        split: if_splits)
next
  case Click_send
  with assms show ?thesis
    by (auto simp: page_inv_def ui_def page_defs js_trim_Nil_iff Let_def split: if_splits option.splits)
next
  case (Click_chat i)
  with assms show ?thesis
    by (auto simp: page_inv_def ui_def page_defs Let_def split: if_splits option.splits)
qed (auto simp: page_inv_def ui_def page_defs signOut_start_def split: if_splits)

lemma chats_effect_chats_inv:
  "lifecycle w = Mounted \<Longrightarrow> chats_inv w \<Longrightarrow> chats_inv (chats_effect w)"
  by (auto simp: chats_inv_def chats_effect_def chats_effect_body_def getChatsFromBackend_start_def
      Let_def split: option.splits)

lemma commit_user_chats_inv: "chats_inv w \<Longrightarrow> chats_inv (commit_user w)"
proof -
  assume inv: "chats_inv w"
  show ?thesis
  proof (cases "lifecycle w = Mounted")
    case True
    from inv have "chats_inv (socket_effect_setup (socket_effect_cleanup w))"
      by (simp add: chats_inv_def)
    with True show ?thesis
      by (simp add: commit_user_def chats_effect_chats_inv)
  next
    case False
    with inv show ?thesis by (simp add: commit_user_def)
  qed
qed

lemma fetchUserDetails_user_chats_inv:
  "chats_inv w \<Longrightarrow> chats_inv (fetchUserDetails_user r w)"
proof (cases r)
  case (Inr u)
  assume "chats_inv w"
  then have "chats_inv (init_continue (update_page (\<lambda>p. p\<lparr>user := Some u\<rparr>) w))"
    by (simp add: chats_inv_def)
  with Inr show ?thesis
    by (simp add: fetchUserDetails_user_def commit_user_chats_inv)
qed (simp add: chats_inv_def fetchUserDetails_user_def)

lemma resolve_request_chats_inv:
  assumes "resolve_request q r w = Some w'" "chats_inv w"
  shows "chats_inv w'"
proof (cases "\<exists>n. q = Req_user_by_name n")
  case True
  with assms show ?thesis
    by (cases r) (auto intro: fetchUserDetails_user_chats_inv)
next
  case False
  with assms show ?thesis
    by (cases q; cases r) (auto simp: chats_inv_def fetchUserDetails_current_user_def split: sum.splits)
qed


lemma step_chats_inv:
  assumes "step w e = Some w'" "chats_inv w"
  shows "chats_inv w'"
  using assms
proof (cases e)
  case Mount
  with assms show ?thesis
    by (auto simp: chats_inv_def mount_def page_defs split: if_splits)
next
  case (Settle i r)
  with assms(1) have "resolve_request (pending w ! i) r (w\<lparr>pending := remove_nth i (pending w)\<rparr>) = Some w'"
    by (simp split: if_splits)
  moreover from assms(2) have "chats_inv (w\<lparr>pending := remove_nth i (pending w)\<rparr>)"
    by (simp add: chats_inv_def)
  ultimately show ?thesis by (rule resolve_request_chats_inv)
next
  case (Push_new_message m)
  with assms show ?thesis
    by (auto simp: chats_inv_def socket_fire_def funpow_on_new_message split: if_splits)
next
  case (Push_send_error x)
  with assms show ?thesis
    by (auto simp: chats_inv_def socket_fire_def funpow_on_error_sending_message split: if_splits)
next
  case Unmount
  with assms show ?thesis
    by (auto simp: chats_inv_def unmount_def split: if_splits)
next
  case Click_send
  with assms show ?thesis
    by (auto simp: chats_inv_def ui_def split: if_splits)
next
  case (Click_chat i)
  with assms show ?thesis
    by (auto simp: chats_inv_def ui_def split: if_splits)
qed (auto simp: chats_inv_def ui_def signOut_start_def split: if_splits)


lemma reachable_page_inv: "reachable w \<Longrightarrow> page_inv w"
  by (erule reachable_invariant) (simp add: page_inv_def, blast intro: step_page_inv reachable_conn_inv)

lemma reachable_chats_inv: "reachable w \<Longrightarrow> chats_inv w"
  by (erule reachable_invariant) (simp add: chats_inv_def, blast intro: step_chats_inv)


lemma reachable_listener_count:
  "reachable w \<Longrightarrow> count_list (listeners (sock w)) ev = (if lifecycle w = Mounted then 1 else 0)"
  by (drule reachable_listeners_inv) (cases ev; simp add: listeners_inv_def)

lemma resolve_request_uncaught:
  "resolve_request q r w = Some w' \<Longrightarrow> uncaught w' = uncaught w"
  by (cases q; cases r) auto

lemma resolve_request_defined: "resolve_request q r w \<noteq> None \<longleftrightarrow> resp_matches q r"
  by (cases q; cases r) simp_all

lemma calls_inv_issue [simp]:
  "calls_inv w \<Longrightarrow> calls_inv (issue q w) \<longleftrightarrow> limit_ok q"
  by (auto simp: calls_inv_def issue_def)

lemma resolve_request_calls_inv:
  assumes "resolve_request q r w = Some w'" "calls_inv w"
  shows "calls_inv w'"
  using assms
  by (cases q; cases r)
     (auto simp: calls_inv_def page_defs Let_def split: sum.splits option.splits if_splits)

lemma step_calls_inv:
  assumes "step w e = Some w'" "calls_inv w"
  shows "calls_inv w'"
proof (cases e)
  case (Settle i r)
  with assms(1) have "i < length (pending w)"
    and "resolve_request (pending w ! i) r (w\<lparr>pending := remove_nth i (pending w)\<rparr>) = Some w'"
    by (simp_all split: if_splits)
  moreover from assms(2) have "calls_inv (w\<lparr>pending := remove_nth i (pending w)\<rparr>)"
    using mset_remove_nth_subseteq [of i "pending w"] by (auto simp: calls_inv_def)
  ultimately show ?thesis by (blast intro: resolve_request_calls_inv)
qed (use assms in \<open>auto simp: calls_inv_def ui_def page_defs socket_fire_def funpow_on_new_message
        funpow_on_error_sending_message Let_def split: if_splits option.splits\<close>)

lemma reachable_calls_inv: "reachable w \<Longrightarrow> calls_inv w"
  by (erule reachable_invariant) (simp add: calls_inv_def, blast intro: step_calls_inv)

lemma chats_call_single:
  assumes "calls_inv w" "chats_inv w" "i < length (pending w)" "is_req_chats (pending w ! i)"
  shows "\<forall>q \<in> set (remove_nth i (pending w)). \<not> is_req_chats q"
proof -
  have "length (filter is_req_chats (pending w)) \<le> length (filter is_req_chats (requests w))"
    using assms(1) by (simp add: calls_inv_def length_filter_mono_mset)
  also have "\<dots> \<le> 1" using assms(2) by (simp add: chats_inv_def)
  finally have "length (filter is_req_chats (remove_nth i (pending w))) = 0"
    using filter_remove_nth [OF assms(3), of is_req_chats] assms(4) by simp
  then show ?thesis by (simp add: filter_empty_conv)
qed

lemma chats_done_rooms:
  assumes "no_rooms w" "lifecycle w = Mounted" "user (page w) \<noteq> None"
  shows "rooms_listed (getChatsFromBackend_done r w)"
  using assms
  by (cases r)
     (auto simp: rooms_listed_def no_rooms_def getChatsFromBackend_done_def chats_failed_def openChat_def
       getCurentChatMessages_start_def update_page_def Let_def split: list.splits option.splits)

lemma chats_done_pending:
  "q \<in> set (pending (getChatsFromBackend_done r w)) \<Longrightarrow> is_req_chats q \<Longrightarrow> q \<in> set (pending w)"
  by (cases r)
     (auto simp: getChatsFromBackend_done_def openChat_def getCurentChatMessages_start_def
       Let_def split: list.splits option.splits if_splits)

lemma resolve_request_room_inv:
  assumes "i < length (pending w)" "room_inv w" "page_inv w" "conn_inv w" "calls_inv w" "chats_inv w"
    and "resolve_request (pending w ! i) r (w\<lparr>pending := remove_nth i (pending w)\<rparr>) = Some w'"
  shows "room_inv w'"
proof -
  let ?q = "pending w ! i" and ?w0 = "w\<lparr>pending := remove_nth i (pending w)\<rparr>"
  have q: "?q \<in> set (pending w)" using assms(1) by simp
  have rm: "set (pending ?w0) \<subseteq> set (pending w)" by (simp add: set_remove_nth)
  from assms(2) rm have j0: "room_inv ?w0"
    by (auto simp: room_inv_def rooms_listed_def no_rooms_def)
  show ?thesis
  proof (cases ?q)
    case (Req_chats n)
    from assms(2) q have "is_req_chats ?q \<longrightarrow> no_rooms w" unfolding room_inv_def by blast
    with Req_chats have "no_rooms w" by simp
    then have none: "no_rooms ?w0" by (simp add: no_rooms_def)
    from assms(3) q Req_chats have u: "user (page ?w0) \<noteq> None"
      by (cases "user (page w)") (auto simp: page_inv_def)
    from Req_chats chats_call_single [OF assms(5,6,1)]
    have nochats: "\<forall>q \<in> set (pending ?w0). \<not> is_req_chats q" by simp
    show ?thesis
    proof (cases r)
      case (Resp_chats x)
      with Req_chats assms(7) have w': "w' = getChatsFromBackend_done x ?w0" by simp
      have "lifecycle w' = Mounted \<longrightarrow> rooms_listed w'"
        using chats_done_rooms [OF none _ u, of x] w' by simp
      moreover have "\<forall>q \<in> set (pending w'). \<not> is_req_chats q"
        using chats_done_pending [of _ x ?w0] nochats w' by blast
      ultimately show ?thesis by (simp add: room_inv_def)
    qed (use Req_chats assms(7) in simp_all)
  next
    case (Req_user_by_name n)
    with assms(4) q have "user (page w) = None" by (auto simp: conn_inv_def filter_empty_conv)
    with assms(3) have "userChats (page w) = [] \<and> currentChat (page w) = None \<and> outbox (sock w) = []"
      by (simp add: page_inv_def)
    with Req_user_by_name assms(7) show ?thesis
      by (cases r) (auto simp: room_inv_def rooms_listed_def no_rooms_def split: sum.splits)
  next
    case Req_current_user
    with assms(7) j0 show ?thesis
      by (cases r)
         (auto simp: room_inv_def rooms_listed_def no_rooms_def fetchUserDetails_current_user_def
           split: sum.splits)
  next
    case (Req_messages c n)
    with assms(7) j0 show ?thesis
      by (cases r) (auto simp: room_inv_def rooms_listed_def no_rooms_def)
  next
    case Req_sign_out
    with assms(7) j0 show ?thesis
      by (cases r) (auto simp: room_inv_def rooms_listed_def no_rooms_def)
  qed
qed

lemma step_room_inv:
  assumes "step w e = Some w'" "room_inv w" "page_inv w" "conn_inv w" "calls_inv w" "chats_inv w"
  shows "room_inv w'"
proof (cases e)
  case Mount
  with assms(1) have "lifecycle w = Before_mount" and w': "w' = mount w" by (simp_all split: if_splits)
  with assms(4) have "w = world_init" by (simp add: conn_inv_def)
  with w' show ?thesis by (simp add: room_inv_def rooms_listed_def no_rooms_def page_defs)
next
  case (Settle i r)
  with assms show ?thesis
    using step_SettleD [of w i r w'] by (blast intro: resolve_request_room_inv)
next
  case (Push_new_message m)
  with assms(1,2) show ?thesis
    by (auto simp: room_inv_def rooms_listed_def no_rooms_def socket_fire_def funpow_on_new_message
        split: if_splits)
next
  case (Push_send_error x)
  with assms(1,2) show ?thesis
    by (auto simp: room_inv_def rooms_listed_def no_rooms_def socket_fire_def
        funpow_on_error_sending_message split: if_splits)
next
  case Click_send
  with assms(1,2) show ?thesis
    by (auto simp: room_inv_def rooms_listed_def no_rooms_def ui_def postMessage_def js_catch_def
        Let_def split: if_splits option.splits)
next
  case (Click_chat i)
  with assms(1,2) show ?thesis
    by (auto simp: room_inv_def rooms_listed_def no_rooms_def ui_def openChat_def js_catch_def
        getCurentChatMessages_start_def update_page_def Let_def split: if_splits option.splits)
qed (use assms(1,2) in \<open>auto simp: room_inv_def rooms_listed_def no_rooms_def ui_def
      signOut_start_def split: if_splits\<close>)

lemma reachable_room_inv: "reachable w \<Longrightarrow> room_inv w"
  by (erule reachable_invariant)
     (simp add: room_inv_def no_rooms_def,
      blast intro: step_room_inv reachable_page_inv reachable_conn_inv reachable_calls_inv reachable_chats_inv)

lemma resolve_request_live_inv:
  assumes "resolve_request q r w = Some w'" "live_inv w"
  shows "live_inv w'"
  using assms
  by (cases q; cases r)
     (auto simp: live_inv_def fetchUserDetails_user_def fetchUserDetails_current_user_def
        init_continue_def split: sum.splits if_splits)

lemma step_live_inv:
  assumes "step w e = Some w'" "live_inv w" "conn_inv w"
  shows "live_inv w'"
proof (cases e)
  case Mount
  with assms(1) have "lifecycle w = Before_mount" and w': "w' = mount w" by (simp_all split: if_splits)
  with assms(3) have "w = world_init" by (simp add: conn_inv_def)
  moreover have "user (page (mount world_init)) = None" by (simp add: mount_def fetchUserDetails_start_def)
  ultimately show ?thesis using w' by (simp add: live_inv_def)
next
  case (Settle i r)
  with assms(1) have "resolve_request (pending w ! i) r (w\<lparr>pending := remove_nth i (pending w)\<rparr>) = Some w'"
    by (simp split: if_splits)
  moreover from assms(2) have "live_inv (w\<lparr>pending := remove_nth i (pending w)\<rparr>)"
    by (simp add: live_inv_def)
  ultimately show ?thesis by (rule resolve_request_live_inv)
qed (use assms(1,2) in \<open>auto simp: live_inv_def ui_def signOut_start_def socket_fire_def funpow_on_new_message
      funpow_on_error_sending_message split: if_splits\<close>)

lemma reachable_live_inv: "reachable w \<Longrightarrow> live_inv w"
  by (erule reachable_invariant) (simp add: live_inv_def, blast intro: step_live_inv reachable_conn_inv)

end
