(* ===== verification/StoreSpec.thy ===== *)
theory StoreSpec
  imports ChatData
begin

text \<open>
  The abstract Message Store of spec sections 4.2--4.3, independent of React and of the
  socket: the active room and its ordered sequence, \<open>None\<close> while not yet loaded
  (distinct from an empty room). Joining a room makes it active and unloaded;
  \<open>loadHistory\<close> for the active room installs the reversed most-recent-first result
  and a result for any other room is discarded (the room-id guard); \<open>appendIncoming\<close>
  appends a message of the active, loaded room at the tail and ignores any other.
\<close>

record store_state =
  active :: "chat option"
  store :: "message list option"

datatype store_event =
    A_join chat
  | A_history chat "message list"
  | A_push message
  | A_skip

definition store_init :: store_state where
  "store_init = \<lparr>active = None, store = None\<rparr>"

definition is_active :: "store_state \<Rightarrow> nat \<Rightarrow> bool" where
  "is_active a cid \<longleftrightarrow> map_option chat_id (active a) = Some cid"

fun spec_step :: "store_state \<Rightarrow> store_event \<Rightarrow> store_state" where
  "spec_step a (A_join c) = a\<lparr>active := Some c, store := None\<rparr>"
| "spec_step a (A_history c msgs) =
     (if is_active a (chat_id c) then a\<lparr>store := Some (rev msgs)\<rparr> else a)"
| "spec_step a (A_push m) =
     (case store a of
        Some xs \<Rightarrow> if is_active a (message_chat_id m) then a\<lparr>store := Some (xs @ [m])\<rparr> else a
      | None \<Rightarrow> a)"
| "spec_step a A_skip = a"

fun spec_run :: "store_state \<Rightarrow> store_event list \<Rightarrow> store_state" where
  "spec_run a [] = a"
| "spec_run a (x # xs) = spec_run (spec_step a x) xs"

text \<open>A loaded store always belongs to an active room.\<close>

definition store_wf :: "store_state \<Rightarrow> bool" where
  "store_wf a \<longleftrightarrow> (store a \<noteq> None \<longrightarrow> active a \<noteq> None)"

lemma store_wf_init: "store_wf store_init"
  by (simp add: store_wf_def store_init_def)

lemma spec_step_wf: "store_wf a \<Longrightarrow> store_wf (spec_step a x)"
  by (cases x) (auto simp: store_wf_def is_active_def split: option.splits)

lemma spec_run_wf: "store_wf a \<Longrightarrow> store_wf (spec_run a xs)"
  by (induction xs arbitrary: a) (auto intro: spec_step_wf)

end
