(* ===== verification/Refinement.thy ===== *)
theory Refinement
  imports Session StoreSpec
begin

text \<open>
  How the page implements the abstract Message Store. \<open>abs_event\<close> says which store
  operation a page event performs (a chat click or the arrival of the chat list joins a
  room, a settled history fetch loads one, a push on a mounted page appends; everything
  else leaves the store alone). \<open>refines a w\<close> relates an abstract state to a world:
  the open chat is the active room, and a loaded sequence is what the page shows.
  The page has no room guard of its own, so the simulation holds for environments that
  answer history fetches and push messages only for the open chat (\<open>env_ok\<close>).
\<close>

fun abs_event :: "world \<Rightarrow> event \<Rightarrow> store_event" where
  "abs_event w (Click_chat i) =
     (if lifecycle w = Mounted \<and> i < length (userChats (page w))
      then A_join (userChats (page w) ! i) else A_skip)"
| "abs_event w (Settle i r) =
     (if lifecycle w = Mounted \<and> i < length (pending w)
      then (case (pending w ! i, r) of
              (Req_chats n, Resp_chats (Inr (c # cs))) \<Rightarrow> A_join c
            | (Req_messages c n, Resp_messages (Inr msgs)) \<Rightarrow> A_history c msgs
            | (Req_messages c n, Resp_messages (Inl err)) \<Rightarrow> A_history c []
            | _ \<Rightarrow> A_skip)
      else A_skip)"
| "abs_event w (Push_new_message m) = (if lifecycle w = Mounted then A_push m else A_skip)"
| "abs_event w e = A_skip"

fun env_ok :: "world \<Rightarrow> event \<Rightarrow> bool" where
  "env_ok w (Settle i (Resp_messages r)) =
     (i < length (pending w) \<longrightarrow>
        (case pending w ! i of
           Req_messages c n \<Rightarrow> map_option chat_id (currentChat (page w)) = Some (chat_id c)
         | _ \<Rightarrow> True))"
| "env_ok w (Push_new_message m) =
     (case currentChat (page w) of None \<Rightarrow> True | Some c \<Rightarrow> message_chat_id m = chat_id c)"
| "env_ok w e = True"

definition refines :: "store_state \<Rightarrow> world \<Rightarrow> bool" where
  "refines a w \<longleftrightarrow> store_wf a \<and> active a = currentChat (page w) \<and>
     (\<forall>xs. store a = Some xs \<longrightarrow> chatMessages (page w) = xs)"

text \<open>The store operations along a run, and the condition on the environment at each step.\<close>

fun abs_run :: "world \<Rightarrow> event list \<Rightarrow> store_event list" where
  "abs_run w [] = []"
| "abs_run w (e # es) = (case step w e of None \<Rightarrow> [] | Some w' \<Rightarrow> abs_event w e # abs_run w' es)"

fun env_ok_run :: "world \<Rightarrow> event list \<Rightarrow> bool" where
  "env_ok_run w [] = True"
| "env_ok_run w (e # es) =
     (env_ok w e \<and> (case step w e of None \<Rightarrow> True | Some w' \<Rightarrow> env_ok_run w' es))"

lemma refines_settle:
  assumes "reachable w" "refines a w" "env_ok w (Settle i r)" "step w (Settle i r) = Some w'"
  shows "refines (spec_step a (abs_event w (Settle i r))) w'"
proof -
  from assms(4) have i: "i < length (pending w)"
    and res: "resolve_request (pending w ! i) r (w\<lparr>pending := remove_nth i (pending w)\<rparr>) = Some w'"
    by (simp_all split: if_splits)
  from assms(1) have pi: "page_inv w" by (rule reachable_page_inv)
  show ?thesis
  proof (cases "lifecycle w = Mounted")
    case False
    with res assms(2) show ?thesis
      by (cases "pending w ! i"; cases r)
         (auto simp: refines_def page_defs Let_def split: sum.splits list.splits option.splits)
  next
    case True
    show ?thesis
    proof (cases "pending w ! i")
      case (Req_chats n)
      have u: "user (page w) \<noteq> None"
      proof
        assume "user (page w) = None"
        with pi have "\<forall>q \<in> set (pending w). is_user_req q \<or> q = Req_sign_out" by (simp add: page_inv_def)
        with i Req_chats show False using nth_mem [OF i] by fastforce
      qed
      with True Req_chats res assms(2) i show ?thesis
        by (cases r)
           (auto simp: refines_def getChatsFromBackend_done_def openChat_def chats_failed_def
             getCurentChatMessages_start_def store_wf_def Let_def split: sum.splits list.splits option.splits)
    next
      case (Req_messages c n)
      with True res assms(2,3) i show ?thesis
        by (cases r)
           (auto simp: refines_def getCurentChatMessages_done_def is_active_def setAlert_def
             store_wf_def split: sum.splits option.splits)
    qed (use True res assms(2) i in \<open>cases r; auto simp: refines_def split: sum.splits\<close>)+
  qed
qed


lemma refines_step:
  assumes "reachable w" "refines a w" "env_ok w e" "step w e = Some w'"
  shows "refines (spec_step a (abs_event w e)) w'"
proof (cases e)
  case (Settle i r)
  from assms show ?thesis unfolding Settle by (rule refines_settle)
next
  case (Push_new_message m)
  show ?thesis
  proof (cases "lifecycle w = Mounted")
    case True
    from assms(1) True have "count_list (listeners (sock w)) New_message = 1"
      by (simp add: reachable_listener_count)
    with True Push_new_message assms(2-4) show ?thesis
      by (auto simp: refines_def socket_fire_once on_new_message_def is_active_def store_wf_def
          split: if_splits option.splits)
  next
    case False
    from assms(1) False have "count_list (listeners (sock w)) New_message = 0"
      by (simp add: reachable_listener_count)
    with False Push_new_message assms(2,4) show ?thesis
      by (auto simp: socket_fire_def split: if_splits)
  qed
next
  case (Push_send_error x)
  with assms(2,4) show ?thesis
    by (auto simp: refines_def socket_fire_def funpow_on_error_sending_message setAlert_def
        on_error_sending_message_def split: if_splits)
next
  case (Click_chat i)
  from assms(1) have pi: "page_inv w" by (rule reachable_page_inv)
  show ?thesis
  proof (cases "i < length (userChats (page w))")
    case True
    with pi obtain u where "user (page w) = Some u"
      by (cases "user (page w)") (auto simp: page_inv_def)
    with True Click_chat assms(2,4) show ?thesis
      by (auto simp: refines_def ui_def openChat_def js_catch_def getCurentChatMessages_start_def
          store_wf_def)
  next
    case False
    with Click_chat assms(4) show ?thesis by simp
  qed
next
  case Click_send
  with assms(2,4) show ?thesis
    by (auto simp: ui_def refines_def split: if_splits)
qed (use assms(2,4) in \<open>auto simp: ui_def page_defs refines_def split: if_splits\<close>)

lemma refines_init: "refines store_init world_init"
  by (simp add: refines_def store_init_def store_wf_def)

lemma refines_run:
  "reachable w \<Longrightarrow> refines a w \<Longrightarrow> env_ok_run w es \<Longrightarrow> run w es = Some w' \<Longrightarrow>
   refines (spec_run a (abs_run w es)) w'"
proof (induction es arbitrary: w a)
  case Nil
  then show ?case by simp
next
  case (Cons e es)
  from Cons.prems(4) obtain w1 where s: "step w e = Some w1" and r: "run w1 es = Some w'"
    by (auto split: option.splits)
  from Cons.prems(1) s have "reachable w1" by (rule reachable.step)
  moreover from Cons.prems(1-3) s have "refines (spec_step a (abs_event w e)) w1"
    by (auto intro: refines_step)
  moreover from Cons.prems(3) s have "env_ok_run w1 es" by simp
  ultimately have "refines (spec_run (spec_step a (abs_event w e)) (abs_run w1 es)) w'"
    using r by (rule Cons.IH)
  with s show ?case by simp
qed

end
