(* ===== verification/View.thy ===== *)
theory View
  imports ChatsPage
begin

text \<open>
  What the page shows (the JSX of \<open>ChatsPage\<close>, lines 197--346), as a function of its
  state: the alert, the group-chat modal flag, one row per chat of the list, the title
  of the open chat, the message pane and the text of the input. The header (logo,
  product name, Sign Out button, a fixed avatar) does not depend on the state.
  A message's time is \<open>new Date(message_sent_at).toLocaleString("en-GB", \<dots>)\<close> with
  two-digit day, month, hour and minute and a 24-hour clock, in the user's time zone:
  \<open>dd/mm, hh:mm\<close>. The time zone is an input, its offset from UTC in minutes at that
  instant; a time value beyond the range of a JavaScript \<open>Date\<close> prints
  \<open>Invalid Date\<close>. The calendar date of a day number is computed by 400-, 100- and
  4-year cycles from 1 March 0000 (the proleptic Gregorian calendar of ECMAScript).
\<close>

subsection \<open>The message date\<close>

definition two_digits :: "nat \<Rightarrow> string" where
  "two_digits n = [''0123456789'' ! (n div 10 mod 10), ''0123456789'' ! (n mod 10)]"

text \<open>Month and day of a day of a March-based year (0 is 1 March).\<close>

definition month_day :: "int \<Rightarrow> int \<times> int" where
  "month_day doy =
     (let mp = (5 * doy + 2) div 153
      in (if mp < 10 then mp + 3 else mp - 9, doy - (153 * mp + 2) div 5 + 1))"

text \<open>Year, month and day of the day number \<open>z\<close> (0 is 1 January 1970).\<close>

definition civil_of_days :: "int \<Rightarrow> int \<times> int \<times> int" where
  "civil_of_days z =
     (let z' = z + 719468; era = z' div 146097; r = z' mod 146097;
          c = min 3 (r div 36524); r1 = r - 36524 * c;
          q4 = r1 div 1461; r2 = r1 mod 1461;
          y1 = min 3 (r2 div 365); doy = r2 - 365 * y1;
          (m, d) = month_day doy
      in (era * 400 + 100 * c + 4 * q4 + y1 + (if m \<le> 2 then 1 else 0), m, d))"

text \<open>The time values a JavaScript \<open>Date\<close> can hold (ECMAScript TimeClip).\<close>

definition js_time_valid :: "int \<Rightarrow> bool" where
  "js_time_valid t \<longleftrightarrow> \<bar>t\<bar> \<le> 8640000000000000"

definition format_sent_at :: "int \<Rightarrow> int \<Rightarrow> string" where
  "format_sent_at tz t =
     (if \<not> js_time_valid t then ''Invalid Date''
      else let mins = t div 60000 + tz; hm = mins mod 1440
           in case civil_of_days (mins div 1440) of (y, mo, d) \<Rightarrow>
                two_digits (nat d) @ ''/'' @ two_digits (nat mo) @ '', '' @
                two_digits (nat (hm div 60)) @ '':'' @ two_digits (nat (hm mod 60)))"

subsection \<open>The rendered page\<close>

text \<open>
  A row of the chat list (lines 256--283): the chat's image or a default avatar when
  \<open>chat.image\<close> is null or empty, its name, and the label \<open>3h\<close>, which is fixed text.
\<close>

record chat_row =
  row_image :: string
  row_name :: string
  row_time :: string

definition default_avatar :: string where
  "default_avatar = ''https://www.gravatar.com/avatar/00000000000000000000000000000000?d=mp&f=y''"

definition chat_row :: "chat \<Rightarrow> chat_row" where
  "chat_row c =
     \<lparr>row_image = (case image c of Some s \<Rightarrow> if s = [] then default_avatar else s | None \<Rightarrow> default_avatar),
      row_name = chat_name c, row_time = ''3h''\<rparr>"

text \<open>A message bubble (lines 304--342): sender's first and last name, text, time.\<close>

record bubble =
  bubble_sender :: string
  bubble_text :: string
  bubble_time :: string

definition message_bubble :: "int \<Rightarrow> message \<Rightarrow> bubble" where
  "message_bubble tz m =
     \<lparr>bubble_sender = message_first_name m @ '' '' @ message_last_name m,
      bubble_text = message_content m, bubble_time = format_sent_at tz (message_sent_at m)\<rparr>"

text \<open>The message pane (lines 297--346): the notice \<open>No Messages Yet\<close> or the bubbles.\<close>

datatype pane = No_messages | Bubbles "bubble list"

record view =
  view_alert :: "(alert_type \<times> string) option"
  view_group_modal :: bool
  view_rows :: "chat_row list"
  view_title :: string
  view_pane :: pane
  view_input :: string

definition render :: "int \<Rightarrow> page \<Rightarrow> view" where
  "render tz p =
     \<lparr>view_alert = (if showAlertModal p then Some (alertModalType p, alertModalValue p) else None),
      view_group_modal = showGroupChatCreateModal p,
      view_rows = map chat_row (userChats p),
      view_title = (case currentChat p of None \<Rightarrow> [] | Some c \<Rightarrow> chat_name c),
      view_pane = (if chatMessages p = [] then No_messages
                   else Bubbles (map (message_bubble tz) (chatMessages p))),
      view_input = newMessage p\<rparr>"

subsection \<open>Calendar lemmas\<close>

lemma min3_div_bounds:
  fixes r k :: int
  assumes "0 \<le> r" "r \<le> 4 * k" "0 < k"
  shows "0 \<le> min 3 (r div k) \<and> min 3 (r div k) \<le> 3 \<and>
         0 \<le> r - k * min 3 (r div k) \<and> r - k * min 3 (r div k) \<le> k"
proof (cases "r div k \<le> 3")
  case True
  then have m: "min 3 (r div k) = r div k" by simp
  have "0 \<le> r div k" using assms by (simp add: pos_imp_zdiv_nonneg_iff)
  moreover have "k * (r div k) + r mod k = r" by (rule mult_div_mod_eq)
  moreover have "0 \<le> r mod k" "r mod k < k" using assms(3) by simp_all
  ultimately show ?thesis unfolding m using True by linarith
next
  case False
  have "k * (r div k) + r mod k = r" by (rule mult_div_mod_eq)
  moreover have "0 \<le> r mod k" using assms(3) by simp
  moreover have "k * 4 \<le> k * (r div k)" using False assms(3) by (intro mult_left_mono) simp_all
  ultimately have "4 * k \<le> r" by linarith
  with assms False show ?thesis by (simp add: min_def)
qed

lemma month_day_bounds:
  assumes "0 \<le> doy" "doy \<le> 365" "month_day doy = (m, d)"
  shows "1 \<le> m \<and> m \<le> 12 \<and> 1 \<le> d \<and> d \<le> 31 \<and>
    (153 * (if 2 < m then m - 3 else m + 9) + 2) div 5 + d - 1 = doy"
proof -
  define mp where "mp = (5 * doy + 2) div 153"
  define a where "a = (153 * mp + 2) div 5"
  have "153 * mp + (5 * doy + 2) mod 153 = 5 * doy + 2" unfolding mp_def by (rule mult_div_mod_eq)
  moreover have "0 \<le> (5 * doy + 2) mod 153" "(5 * doy + 2) mod 153 < 153" by simp_all
  ultimately have lo: "153 * mp \<le> 5 * doy + 2" and hi: "5 * doy + 2 < 153 * mp + 153" by linarith+
  have "5 * a + (153 * mp + 2) mod 5 = 153 * mp + 2" unfolding a_def by (rule mult_div_mod_eq)
  moreover have "0 \<le> (153 * mp + 2) mod 5" "(153 * mp + 2) mod 5 < 5" by simp_all
  ultimately have "5 * a \<le> 5 * doy + 4" "5 * doy < 5 * a + 154" using lo hi by linarith+
  then have ad: "a \<le> doy" "doy \<le> a + 30" by arith+
  from lo hi assms(1,2) have mp: "0 \<le> mp" "mp \<le> 11" by arith+
  have "month_day doy = (if mp < 10 then mp + 3 else mp - 9, doy - a + 1)"
    by (simp add: month_day_def mp_def a_def Let_def)
  then have "m = (if mp < 10 then mp + 3 else mp - 9)" "d = doy - a + 1"
    using assms(3) by (metis prod.inject)+
  with ad mp show ?thesis by (simp add: a_def)
qed

lemma civil_parts:
  obtains era c q4 y1 doy where
    "z + 719468 = era * 146097 + 36524 * c + 1461 * q4 + 365 * y1 + doy"
    "0 \<le> c" "c \<le> 3" "0 \<le> q4" "q4 \<le> 24" "0 \<le> y1" "y1 \<le> 3" "0 \<le> doy" "doy \<le> 365"
    "civil_of_days z =
       (era * 400 + 100 * c + 4 * q4 + y1 + (if fst (month_day doy) \<le> 2 then 1 else 0), month_day doy)"
proof -
  define z' where "z' = z + 719468"
  define era where "era = z' div 146097"
  define r where "r = z' mod 146097"
  define c where "c = min 3 (r div 36524)"
  define r1 where "r1 = r - 36524 * c"
  define q4 where "q4 = r1 div 1461"
  define r2 where "r2 = r1 mod 1461"
  define y1 where "y1 = min 3 (r2 div 365)"
  define doy where "doy = r2 - 365 * y1"
  have "0 \<le> r" "r < 146097" unfolding r_def by simp_all
  then have "0 \<le> r" "r \<le> 4 * 36524" by simp_all
  from min3_div_bounds [OF this] have c: "0 \<le> c" "c \<le> 3" "0 \<le> r1" "r1 \<le> 36524"
    unfolding c_def r1_def by simp_all
  have q4: "0 \<le> q4" "q4 \<le> 24"
    using c zdiv_mono1 [of r1 36524 1461] unfolding q4_def by (simp_all add: pos_imp_zdiv_nonneg_iff)
  have "0 \<le> r2" "r2 < 1461" unfolding r2_def by simp_all
  then have "0 \<le> r2" "r2 \<le> 4 * 365" by simp_all
  from min3_div_bounds [OF this] have y1: "0 \<le> y1" "y1 \<le> 3" "0 \<le> doy" "doy \<le> 365"
    unfolding y1_def doy_def by simp_all
  have "146097 * era + r = z'" unfolding era_def r_def by (rule mult_div_mod_eq)
  moreover have "1461 * q4 + r2 = r1" unfolding q4_def r2_def by (rule mult_div_mod_eq)
  ultimately have eq: "z + 719468 = era * 146097 + 36524 * c + 1461 * q4 + 365 * y1 + doy"
    unfolding z'_def r1_def doy_def by linarith
  have "civil_of_days z =
       (era * 400 + 100 * c + 4 * q4 + y1 + (if fst (month_day doy) \<le> 2 then 1 else 0), month_day doy)"
    unfolding civil_of_days_def Let_def z'_def [symmetric] era_def [symmetric] r_def [symmetric]
      c_def [symmetric] r1_def [symmetric] q4_def [symmetric] r2_def [symmetric] y1_def [symmetric]
      doy_def [symmetric]
    by (simp split: prod.split)
  with that eq c q4 y1 show ?thesis by blast
qed

lemma civil_of_days_bounds:
  assumes "civil_of_days z = (y, m, d)"
  shows "1 \<le> m \<and> m \<le> 12 \<and> 1 \<le> d \<and> d \<le> 31"
proof -
  obtain era c q4 y1 doy where "0 \<le> doy" "doy \<le> 365"
    and civ: "civil_of_days z =
       (era * 400 + 100 * c + 4 * q4 + y1 + (if fst (month_day doy) \<le> 2 then 1 else 0), month_day doy)"
    by (rule civil_parts)
  moreover from civ assms have "month_day doy = (m, d)" by simp
  ultimately show ?thesis using month_day_bounds by blast
qed

lemma length_two_digits [simp]: "length (two_digits n) = 2"
  by (simp add: two_digits_def)

end
