(* ===== verification/Server.thy ===== *)
theory Server
  imports ChatData
begin

text \<open>
  The other end of the page's two channels, modelled from the collaborator interfaces
  and the wire contract of the specification (sections 4 and 6): the module
  \<open>BackendInteraction\<close> and aws-amplify's \<open>getCurrentUser\<close>/\<open>signOut\<close>, which
  answer the page's requests, and the chat server behind the socket, which receives the
  packets the page emits and pushes \<open>new_message\<close> to the rooms a socket joined. None
  of this code is in the repository. The server is honest: every fetch answers from its
  tables, every received message is stored once and pushed to its room. Its tables are
  association lists, searched in order as a database query would return rows.
\<close>

text \<open>What the server sends to the page's socket: \<open>new_message\<close> with the stored message,
  or \<open>error_sending_message\<close> with its text.\<close>

datatype push = Push_message message | Push_error string

fun push_message :: "push \<Rightarrow> message list" where
  "push_message (Push_message m) = [m]"
| "push_message (Push_error e) = []"

record server =
  srv_auth :: "string + string"
  srv_users :: "user list"
  srv_members :: "(string \<times> chat) list"
  srv_store :: "message list"
  srv_clock :: int
  srv_rooms :: "nat list"
  srv_read :: nat
  srv_pushes :: "push list"

text \<open>
  \<open>srv_auth\<close> is what \<open>getCurrentUser()\<close> settles with (the signed-in username, or the
  message of its \<open>AuthError\<close>); \<open>srv_members\<close> lists the (username, chat) rows of
  chat membership; \<open>srv_store\<close> holds the confirmed messages in the order the server
  stored them, \<open>srv_clock\<close> the server's current time. The connection state of the
  page's socket on the server: the rooms it joined, how many packets of the page's
  outbox have arrived, and the events sent to it and not yet delivered.
  A fresh server has not heard from the page.
\<close>

definition server_fresh :: "server \<Rightarrow> bool" where
  "server_fresh s \<longleftrightarrow> srv_rooms s = [] \<and> srv_read s = 0 \<and> srv_pushes s = []"

subsection \<open>The backend collaborators\<close>

definition getCurrentUser :: "server \<Rightarrow> string + string" where
  "getCurrentUser s = srv_auth s"

definition getUserByUsername :: "server \<Rightarrow> string \<Rightarrow> string + user" where
  "getUserByUsername s n =
     (case find (\<lambda>u. username u = n) (srv_users s) of
        None \<Rightarrow> Inl ''User not found''
      | Some u \<Rightarrow> Inr u)"

definition getChatsOfUser :: "server \<Rightarrow> string \<Rightarrow> chat list" where
  "getChatsOfUser s n = map snd (filter (\<lambda>(n', c). n' = n) (srv_members s))"

text \<open>\<open>fetchRecentMessages(roomId, limit)\<close>: the newest \<open>limit\<close> messages of the room,
  most recent first.\<close>

definition room_log :: "server \<Rightarrow> nat \<Rightarrow> message list" where
  "room_log s cid = filter (\<lambda>m. message_chat_id m = cid) (srv_store s)"

definition getMessagesOfChat :: "server \<Rightarrow> nat \<Rightarrow> nat \<Rightarrow> message list" where
  "getMessagesOfChat s cid k = take k (rev (room_log s cid))"

text \<open>The settled value of each request the page can start.\<close>

fun answer :: "server \<Rightarrow> request \<Rightarrow> response" where
  "answer s Req_current_user = Resp_current_user (getCurrentUser s)"
| "answer s (Req_user_by_name n) = Resp_user (getUserByUsername s n)"
| "answer s (Req_chats n) = Resp_chats (Inr (getChatsOfUser s n))"
| "answer s (Req_messages c k) = Resp_messages (Inr (getMessagesOfChat s (chat_id c) k))"
| "answer s Req_sign_out = Resp_sign_out (Inr ())"

subsection \<open>The chat server\<close>

text \<open>
  A \<open>join\<close> puts the socket into the chat's room (socket.io's \<open>socket.join\<close>: a socket
  stays in every room it joined; the wire contract has no leave event). A \<open>message\<close> is
  stored with the next identifier and the server's time and sent as \<open>new_message\<close> to
  the sockets of its room, this one included when it joined that room.
\<close>

definition stored_message :: "server \<Rightarrow> nat \<Rightarrow> string \<Rightarrow> string \<Rightarrow> nat \<Rightarrow> string \<Rightarrow> message" where
  "stored_message s uid fn ln cid txt =
     \<lparr>message_id = Suc (length (srv_store s)), message_chat_id = cid, message_user_id = uid,
      message_first_name = fn, message_last_name = ln, message_content = txt,
      message_sent_at = srv_clock s\<rparr>"

fun server_recv :: "emit \<Rightarrow> server \<Rightarrow> server" where
  "server_recv (Emit_join n cid) s =
     s\<lparr>srv_rooms := (if cid \<in> set (srv_rooms s) then srv_rooms s else srv_rooms s @ [cid])\<rparr>"
| "server_recv (Emit_message uid fn ln cid txt) s =
     (let m = stored_message s uid fn ln cid txt
      in s\<lparr>srv_store := srv_store s @ [m],
           srv_pushes := (if cid \<in> set (srv_rooms s) then srv_pushes s @ [Push_message m]
                          else srv_pushes s)\<rparr>)"

text \<open>
  The server may instead reject a message packet (spec 7, \<open>SendFailure\<close>): nothing is
  stored and \<open>error_sending_message\<close> goes back to the sender. A \<open>join\<close> is not
  rejected.
\<close>

fun server_reject :: "string \<Rightarrow> emit \<Rightarrow> server \<Rightarrow> server option" where
  "server_reject e (Emit_join n cid) s = None"
| "server_reject e (Emit_message uid fn ln cid txt) s =
     Some (s\<lparr>srv_pushes := srv_pushes s @ [Push_error e]\<rparr>)"

text \<open>The server's clock advances by \<open>d\<close> milliseconds.\<close>

definition server_tick :: "nat \<Rightarrow> server \<Rightarrow> server" where
  "server_tick d s = s\<lparr>srv_clock := srv_clock s + int d\<rparr>"

subsection \<open>Lemmas\<close>

lemma getMessagesOfChat_recent:
  "getMessagesOfChat s cid k = rev (drop (length (room_log s cid) - k) (room_log s cid))"
  by (simp add: getMessagesOfChat_def take_rev)

lemma getMessagesOfChat_stored: "set (getMessagesOfChat s cid k) \<subseteq> set (srv_store s)"
  by (auto simp: getMessagesOfChat_def room_log_def dest: in_set_takeD)

lemma getMessagesOfChat_length: "length (getMessagesOfChat s cid k) \<le> k"
  by (simp add: getMessagesOfChat_def)

lemma server_recv_stored:
  assumes "set (concat (map push_message (srv_pushes s))) \<subseteq> set (srv_store s)"
  shows "set (srv_store s) \<subseteq> set (srv_store (server_recv p s))"
    and "set (concat (map push_message (srv_pushes (server_recv p s))))
           \<subseteq> set (srv_store (server_recv p s))"
  using assms by (cases p; auto simp: Let_def)+

lemma server_reject_stored:
  "server_reject e p s = Some s' \<Longrightarrow> srv_store s' = srv_store s \<and>
     concat (map push_message (srv_pushes s')) = concat (map push_message (srv_pushes s))"
  by (cases p) auto

lemma server_recv_sel [simp]:
  "srv_read (server_recv p s) = srv_read s"
  "srv_auth (server_recv p s) = srv_auth s"
  "srv_users (server_recv p s) = srv_users s"
  "srv_members (server_recv p s) = srv_members s"
  "srv_clock (server_recv p s) = srv_clock s"
  by (cases p; simp add: Let_def)+

end
