(* ===== verification/System.thy ===== *)
theory System
  imports Session Server
begin

text \<open>
  The page composed with its backend and chat server. A system state pairs the page's
  \<open>world\<close> with the \<open>server\<close>; its events are the page's own events (mounting, the
  user's interactions), the backend settling a pending call with its answer, the server
  receiving the next packet the socket sent (or rejecting it, when it is a message),
  the server's next \<open>new_message\<close> or \<open>error_sending_message\<close> reaching the socket, a message another participant's client sends to the server, and the
  server's clock advancing. Settling and pushes are no longer chosen
  by the environment: the server's state decides their values. A push that reaches a
  disconnected socket is lost, as socket.io drops it.
\<close>

type_synonym sys = "world \<times> server"

datatype sys_event =
    Page_event event
  | Backend_answers nat
  | Server_receives
  | Server_rejects string
  | Server_pushes
  | Other_sends nat string string nat string
  | Clock_tick nat

text \<open>The page's events that no other party decides.\<close>

fun page_driven :: "event \<Rightarrow> bool" where
  "page_driven (Settle i r) = False"
| "page_driven (Push_new_message m) = False"
| "page_driven (Push_send_error e) = False"
| "page_driven e = True"

text \<open>The socket event a push of the server raises on the page.\<close>

fun push_event :: "push \<Rightarrow> event" where
  "push_event (Push_message m) = Push_new_message m"
| "push_event (Push_error e) = Push_send_error e"

fun sys_step :: "sys \<Rightarrow> sys_event \<Rightarrow> sys option" where
  "sys_step (w, s) (Page_event e) =
     (if page_driven e then map_option (\<lambda>w'. (w', s)) (step w e) else None)"
| "sys_step (w, s) (Backend_answers i) =
     (if i < length (pending w)
      then map_option (\<lambda>w'. (w', s)) (step w (Settle i (answer s (pending w ! i))))
      else None)"
| "sys_step (w, s) Server_receives =
     (if connected (sock w) \<and> srv_read s < length (outbox (sock w))
      then Some (w, server_recv (outbox (sock w) ! srv_read s) (s\<lparr>srv_read := Suc (srv_read s)\<rparr>))
      else None)"
| "sys_step (w, s) (Server_rejects e) =
     (if connected (sock w) \<and> srv_read s < length (outbox (sock w))
      then map_option (\<lambda>s'. (w, s'))
             (server_reject e (outbox (sock w) ! srv_read s) (s\<lparr>srv_read := Suc (srv_read s)\<rparr>))
      else None)"
| "sys_step (w, s) Server_pushes =
     (case srv_pushes s of
        [] \<Rightarrow> None
      | p # ps \<Rightarrow>
          (case step w (push_event p) of
             None \<Rightarrow> Some (w, s\<lparr>srv_pushes := ps\<rparr>)
           | Some w' \<Rightarrow> Some (w', s\<lparr>srv_pushes := ps\<rparr>)))"
| "sys_step (w, s) (Other_sends uid fn ln cid txt) =
     Some (w, server_recv (Emit_message uid fn ln cid txt) s)"
| "sys_step (w, s) (Clock_tick d) = Some (w, server_tick d s)"

fun sys_run :: "sys \<Rightarrow> sys_event list \<Rightarrow> sys option" where
  "sys_run x [] = Some x"
| "sys_run x (e # es) = (case sys_step x e of None \<Rightarrow> None | Some y \<Rightarrow> sys_run y es)"

inductive sys_reach :: "sys \<Rightarrow> bool" where
  init: "server_fresh s \<Longrightarrow> sys_reach (world_init, s)"
| step: "sys_reach x \<Longrightarrow> sys_step x e = Some y \<Longrightarrow> sys_reach y"

text \<open>Every message the page shows, and every push on its way, is one the server stored.\<close>

definition stored_inv :: "world \<Rightarrow> server \<Rightarrow> bool" where
  "stored_inv w s \<longleftrightarrow>
     set (chatMessages (page w)) \<subseteq> set (srv_store s) \<and>
     set (concat (map push_message (srv_pushes s))) \<subseteq> set (srv_store s)"

text \<open>
  Sign-in in progress: every awaited \<open>getCurrentUser\<close> / \<open>getUserByUsername\<close> call
  is \<open>getCurrentUser\<close> or the lookup of the name \<open>n\<close> the server signed in, and a
  mounted page without a user awaits one of them.
\<close>

definition signin_inv :: "string \<Rightarrow> world \<Rightarrow> bool" where
  "signin_inv n w \<longleftrightarrow>
     list_all (\<lambda>r. r = Req_current_user \<or> r = Req_user_by_name n) (filter is_user_req (pending w)) \<and>
     (lifecycle w = Mounted \<and> user (page w) = None \<longrightarrow> filter is_user_req (pending w) \<noteq> [])"

text \<open>
  A concrete deployment for the scenarios: Alice is signed in and belongs to the chats
  General and Team, in that order; the server has stored one message, Bob's welcome
  in General.
\<close>

definition alice :: user where
  "alice = \<lparr>user_id = 1, username = ''alice'', first_name = ''Alice'', last_name = ''Doe''\<rparr>"

definition chat_general :: chat where
  "chat_general = \<lparr>chat_id = 1, chat_name = ''General'', image = None\<rparr>"

definition chat_team :: chat where
  "chat_team = \<lparr>chat_id = 2, chat_name = ''Team'', image = None\<rparr>"

definition demo_server :: server where
  "demo_server = \<lparr>srv_auth = Inr ''alice'', srv_users = [alice],
     srv_members = [(''alice'', chat_general), (''alice'', chat_team)],
     srv_store = [\<lparr>message_id = 1, message_chat_id = 1, message_user_id = 2,
       message_first_name = ''Bob'', message_last_name = ''Roe'', message_content = ''Welcome'',
       message_sent_at = 1699999999000\<rparr>],
     srv_clock = 1700000000000, srv_rooms = [], srv_read = 0, srv_pushes = []\<rparr>"

text \<open>Start-up: mount, the three start-up calls answered, the \<open>join\<close> received, then the
  history of the first chat answered.\<close>

definition startup_events :: "sys_event list" where
  "startup_events = [Page_event Mount, Backend_answers 0, Backend_answers 0, Backend_answers 0,
     Server_receives, Backend_answers 0]"

definition demo_started :: sys where
  "demo_started = the (sys_run (world_init, demo_server) startup_events)"

lemmas demo_defs = alice_def chat_general_def chat_team_def demo_server_def startup_events_def
  demo_started_def

subsection \<open>The page inside the system\<close>

text \<open>Each system step is a step of the page on its own, or leaves the page alone.\<close>

lemma sys_step_page:
  assumes "sys_step (w, s) e = Some (w', s')"
  shows "w' = w \<or> (\<exists>e'. step w e' = Some w')"
  using assms
  by (cases e) (auto simp del: step.simps split: if_splits list.splits option.splits)

lemma sys_reach_invariant:
  assumes "sys_reach (w, s)" "\<And>s. server_fresh s \<Longrightarrow> P world_init s"
    and "\<And>w s e w' s'. sys_reach (w, s) \<Longrightarrow> P w s \<Longrightarrow> sys_step (w, s) e = Some (w', s') \<Longrightarrow> P w' s'"
  shows "P w s"
  using assms(1)
proof (induction "(w, s)" arbitrary: w s rule: sys_reach.induct)
  case (init s)
  then show ?case by (rule assms(2))
next
  case (step x e w s)
  obtain w0 s0 where "x = (w0, s0)" by fastforce
  with step assms(3) show ?case by blast
qed

lemma sys_reach_reachable: "sys_reach (w, s) \<Longrightarrow> reachable w"
  by (erule sys_reach_invariant) (auto intro: reachable.init reachable.step dest: sys_step_page)

lemma sys_run_reach: "sys_reach x \<Longrightarrow> sys_run x es = Some y \<Longrightarrow> sys_reach y"
  by (induction es arbitrary: x) (auto split: option.splits intro: sys_reach.step)

lemma sys_run_append:
  "sys_run x (es @ fs) = (case sys_run x es of None \<Rightarrow> None | Some y \<Rightarrow> sys_run y fs)"
  by (induction es arbitrary: x) (auto split: option.splits)

subsection \<open>Every shown message is stored\<close>

lemma page_driven_chatMessages:
  "page_driven e \<Longrightarrow> step w e = Some w' \<Longrightarrow> chatMessages (page w') = chatMessages (page w)"
  by (cases e) (auto simp: page_defs Let_def ui_def split: if_splits option.splits js_result.splits)

lemma resolve_answer_stored:
  "resolve_request q (answer s q) w = Some w' \<Longrightarrow>
   set (chatMessages (page w')) \<subseteq> set (chatMessages (page w)) \<union> set (srv_store s)"
  by (cases q) (auto simp: page_defs Let_def signOut_done_def navigate_def
     dest: subsetD [OF getMessagesOfChat_stored] split: if_splits option.splits js_result.splits sum.splits)

lemma push_chatMessages:
  "step w (push_event p) = Some w' \<Longrightarrow>
   set (chatMessages (page w')) \<subseteq> set (chatMessages (page w)) \<union> set (push_message p)"
  by (cases p)
     (auto simp: socket_fire_def funpow_on_new_message funpow_on_error_sending_message
        on_error_sending_message_def update_page_def split: if_splits)

lemma sys_step_stored_inv:
  assumes "sys_step (w, s) e = Some (w', s')" "stored_inv w s"
  shows "stored_inv w' s'"
proof (cases e)
  case (Page_event e')
  with assms(1) have "page_driven e'" "step w e' = Some w'" "s' = s"
    by (auto simp del: step.simps split: if_splits)
  with assms(2) show ?thesis by (simp add: stored_inv_def page_driven_chatMessages)
next
  case (Backend_answers i)
  with assms(1) have "resolve_request (pending w ! i) (answer s (pending w ! i))
      (w\<lparr>pending := remove_nth i (pending w)\<rparr>) = Some w'" "s' = s"
    by (auto split: if_splits)
  with resolve_answer_stored [OF this(1)] assms(2) show ?thesis by (auto simp: stored_inv_def)
next
  case Server_receives
  define s0 where "s0 = s\<lparr>srv_read := Suc (srv_read s)\<rparr>"
  with Server_receives assms(1) have "w' = w" "s' = server_recv (outbox (sock w) ! srv_read s) s0"
    by (auto split: if_splits)
  moreover from assms(2) have "set (concat (map push_message (srv_pushes s0))) \<subseteq> set (srv_store s0)"
    and "set (chatMessages (page w)) \<subseteq> set (srv_store s0)"
    by (simp_all add: s0_def stored_inv_def)
  ultimately show ?thesis using server_recv_stored [of s0 "outbox (sock w) ! srv_read s"]
    by (auto simp: stored_inv_def)
next
  case (Server_rejects e')
  with assms(1) obtain s0 where "w' = w" "server_reject e' (outbox (sock w) ! srv_read s) s0 = Some s'"
    and "s0 = s\<lparr>srv_read := Suc (srv_read s)\<rparr>"
    by (auto split: if_splits)
  with assms(2) server_reject_stored show ?thesis by (fastforce simp: stored_inv_def)
next
  case Server_pushes
  with assms(1) obtain p ps where "srv_pushes s = p # ps" "s' = s\<lparr>srv_pushes := ps\<rparr>"
    and "w' = w \<or> step w (push_event p) = Some w'"
    by (auto simp del: step.simps split: list.splits option.splits)
  with assms(2) push_chatMessages [of w p w'] show ?thesis
    by (auto simp: stored_inv_def)
next
  case (Other_sends i f l k x)
  with assms server_recv_stored [of s "Emit_message i f l k x"] show ?thesis
    by (auto simp: stored_inv_def)
next
  case (Clock_tick d)
  with assms(1) have "w' = w" "s' = server_tick d s" by auto
  with assms(2) show ?thesis by (simp add: stored_inv_def server_tick_def)
qed

lemma sys_reach_stored_inv: "sys_reach (w, s) \<Longrightarrow> stored_inv w s"
  by (erule sys_reach_invariant)
     (simp add: stored_inv_def server_fresh_def, blast intro: sys_step_stored_inv)

subsection \<open>Sign-in completes\<close>

text \<open>The backend's user tables never change, and every step keeps \<open>signin_inv\<close>.\<close>

lemma sys_step_backend:
  "sys_step (w, s) e = Some (w', s') \<Longrightarrow> srv_auth s' = srv_auth s \<and> srv_users s' = srv_users s"
  by (cases e) (auto simp del: step.simps simp: server_tick_def Let_def split: if_splits list.splits option.splits
      elim!: server_reject.elims)

lemma page_step_signin:
  "page_driven e \<Longrightarrow> step w e = Some w' \<Longrightarrow> signin_inv n w \<Longrightarrow> signin_inv n w'"
  by (cases e) (auto simp: signin_inv_def page_defs Let_def ui_def pending_openChat
      split: if_splits option.splits js_result.splits)

lemma push_step_signin:
  "step w (push_event p) = Some w' \<Longrightarrow> signin_inv n w \<Longrightarrow> signin_inv n w'"
  by (cases p) (auto simp: signin_inv_def socket_fire_def funpow_on_new_message
      funpow_on_error_sending_message on_error_sending_message_def update_page_def setAlert_def
      split: if_splits)

lemma answer_signin:
  assumes "signin_inv n w" "i < length (pending w)"
    and "resolve_request (pending w ! i) (answer s (pending w ! i))
           (w\<lparr>pending := remove_nth i (pending w)\<rparr>) = Some w'"
    and "getCurrentUser s = Inr n" "getUserByUsername s n = Inr u"
  shows "signin_inv n w'"
proof (cases "is_user_req (pending w ! i)")
  case False
  from assms(2) False
  have "filter is_user_req (remove_nth i (pending w)) = filter is_user_req (pending w)"
    by (rule filter_remove_nth_other)
  with False assms(1,3) show ?thesis
    by (cases "pending w ! i")
       (auto simp: signin_inv_def)
next
  case True
  let ?w0 = "w\<lparr>pending := remove_nth i (pending w)\<rparr>"
  have "pending w ! i \<in> set (filter is_user_req (pending w))"
    using True assms(2) by simp
  then have q: "pending w ! i = Req_current_user \<or> pending w ! i = Req_user_by_name n"
    using assms(1) by (auto simp: signin_inv_def list_all_iff)
  have sub: "list_all (\<lambda>r. r = Req_current_user \<or> r = Req_user_by_name n)
      (filter is_user_req (pending ?w0))"
    using assms(1) set_remove_nth by (fastforce simp: signin_inv_def list_all_iff)
  from q show ?thesis
  proof
    assume "pending w ! i = Req_current_user"
    with assms(3,4) have "w' = issue (Req_user_by_name n) ?w0"
      by (simp add: fetchUserDetails_current_user_def getCurrentUser_def)
    with sub show ?thesis by (simp add: signin_inv_def)
  next
    assume "pending w ! i = Req_user_by_name n"
    with assms(3,5) have w': "w' = fetchUserDetails_user (Inr u) ?w0"
      by simp
    then have "lifecycle w' = lifecycle w" "filter is_user_req (pending w') = filter is_user_req (pending ?w0)"
      and "lifecycle w = Mounted \<Longrightarrow> user (page w') = Some u"
      by (simp_all add: fetchUserDetails_user_def)
    with sub show ?thesis by (auto simp: signin_inv_def)
  qed
qed

lemma sys_reach_signin:
  assumes "sys_reach (w, s)"
  shows "getCurrentUser s = Inr n \<longrightarrow> getUserByUsername s n = Inr u \<longrightarrow> signin_inv n w"
  using assms
proof (rule sys_reach_invariant)
  fix s0
  show "getCurrentUser s0 = Inr n \<longrightarrow> getUserByUsername s0 n = Inr u \<longrightarrow> signin_inv n world_init"
    by (simp add: signin_inv_def)
next
  fix w s e w' s'
  assume p: "getCurrentUser s = Inr n \<longrightarrow> getUserByUsername s n = Inr u \<longrightarrow> signin_inv n w"
    and st: "sys_step (w, s) e = Some (w', s')"
  show "getCurrentUser s' = Inr n \<longrightarrow> getUserByUsername s' n = Inr u \<longrightarrow> signin_inv n w'"
  proof (intro impI)
    assume "getCurrentUser s' = Inr n" "getUserByUsername s' n = Inr u"
    with sys_step_backend [OF st] have b: "getCurrentUser s = Inr n" "getUserByUsername s n = Inr u"
      by (simp_all add: getCurrentUser_def getUserByUsername_def)
    with p have inv: "signin_inv n w" by blast
    show "signin_inv n w'"
    proof (cases e)
      case (Backend_answers i)
      with st have "i < length (pending w)"
        "resolve_request (pending w ! i) (answer s (pending w ! i))
           (w\<lparr>pending := remove_nth i (pending w)\<rparr>) = Some w'"
        by (auto split: if_splits)
      from answer_signin [OF inv this b] show ?thesis .
    next
      case Server_pushes
      with st obtain p where "w' = w \<or> step w (push_event p) = Some w'"
        by (auto simp del: step.simps split: list.splits option.splits)
      with inv push_step_signin show ?thesis by blast
    next
      case (Page_event e')
      with st have "page_driven e'" "step w e' = Some w'"
        by (auto simp del: step.simps split: if_splits)
      with inv page_step_signin show ?thesis by blast
    qed (use st inv in \<open>auto split: if_splits\<close>)
  qed
qed

lemma answer_user_by_name:
  assumes "i < length (pending w)" "pending w ! i = Req_user_by_name n" "lifecycle w = Mounted"
    and "getUserByUsername s n = Inr u"
  shows "\<exists>w'. sys_step (w, s) (Backend_answers i) = Some (w', s) \<and>
    lifecycle w' = Mounted \<and> user (page w') = Some u"
  using assms by (simp add: fetchUserDetails_user_def)

lemma answer_current_user:
  assumes "i < length (pending w)" "pending w ! i = Req_current_user" "getCurrentUser s = Inr n"
  shows "\<exists>w'. sys_step (w, s) (Backend_answers i) = Some (w', s) \<and> lifecycle w' = lifecycle w \<and>
    pending w' = remove_nth i (pending w) @ [Req_user_by_name n]"
  using assms by (simp add: fetchUserDetails_current_user_def getCurrentUser_def issue_def)

subsection \<open>The demonstration deployment\<close>

lemmas sys_eval = page_defs run_eval socket_defs world_init_def socket_init_def getMessagesOfChat_def
  room_log_def getUserByUsername_def getChatsOfUser_def getCurrentUser_def Let_def stored_message_def

lemma demo_started_reach: "sys_reach demo_started"
proof -
  have "sys_reach (world_init, demo_server)"
    by (rule sys_reach.init) (simp add: demo_server_def server_fresh_def)
  then show ?thesis unfolding demo_started_def
    by (rule sys_run_reach [where es = startup_events]) (simp add: demo_defs sys_eval)
qed

lemma demo_started_state:
  "lifecycle (fst demo_started) = Mounted" "user (page (fst demo_started)) = Some alice"
  "currentChat (page (fst demo_started)) = Some chat_general"
  "chatMessages (page (fst demo_started)) = srv_store demo_server"
  "srv_rooms (snd demo_started) = [chat_id chat_general]"
  "srv_read (snd demo_started) = length (outbox (sock (fst demo_started)))"
  "srv_pushes (snd demo_started) = []" "srv_store (snd demo_started) = srv_store demo_server"
  by (simp_all add: demo_defs sys_eval)

end
