(* ===== verification/Spec2Isabelle.thy ===== *)
theory Spec2Isabelle
  imports Refinement View System
begin

text \<open>
  \<^bold>\<open>A verified model of the ChatsPage controller.\<close>
  The repository is a React front-end for a chat service; its one source file,
  \<open>src/src/Chats Page/ChatsPage.js\<close>, is the component that signs the user in,
  connects the shared socket.io client, loads the user's chats, joins a chat, loads its
  history, sends messages and shows pushed messages and errors. This development models
  that component's behaviour as state passing over an explicit world, and proves what it
  guarantees and where it departs from \<open>spec.md\<close>.

  \<^bold>\<open>Parts and theories.\<close>
  \<^item> \<open>Prelude\<close>: the handler-definition collections \<open>page_defs\<close>, \<open>socket_defs\<close>;
    \<open>js_trim\<close>, the model of \<open>String.prototype.trim\<close> on 8-bit characters (tab,
    LF, VT, FF, CR, space, NBSP); list lemmas (\<open>remove_nth\<close> for settled promises,
    sortedness of a reversed or extended list).
  \<^item> \<open>ChatData\<close>: the backend objects as records (\<open>user\<close>, \<open>chat\<close>, \<open>message\<close>
    with the JSON field names the page reads), the emitted packets (\<open>emit\<close>: \<open>join\<close>
    and \<open>message\<close> payloads), the subscribed events, the backend calls in flight
    (\<open>request\<close>) and how they settle (\<open>response\<close>: \<open>Inl\<close> a rejection's message,
    \<open>Inr\<close> the value), and \<open>js_result\<close>: a statement that completes or throws a
    \<open>TypeError\<close>, keeping the updates made before the throw.
  \<^item> \<open>Socket\<close>: the socket.io client of \<open>../socket\<close>, which is not under \<open>src/\<close>
    and is modelled from the spec and socket.io's documented behaviour: connection flag,
    listeners in registration order, outbox of emitted packets (emits while
    disconnected are buffered); \<open>socket.off(ev)\<close> removes every listener of \<open>ev\<close>; a
    server event runs each registered listener once (\<open>socket_fire\<close>).
  \<^item> \<open>ChatsPage\<close>: the component. \<open>page\<close> is its \<open>useState\<close> hooks; \<open>world\<close> adds
    the socket, the lifecycle (\<open>Before_mount\<close>, \<open>Mounted\<close>, \<open>Unmounted\<close>), the
    backend calls in flight (\<open>pending\<close>), all calls made (\<open>requests\<close>), exceptions
    that escaped a handler (\<open>uncaught\<close>) and the routes passed to react-router's
    \<open>navigate\<close> (\<open>navigations\<close>). One definition per function of the source:
    \<open>setAlert\<close>, \<open>fetchUserDetails\<close> (start and its two continuations),
    \<open>getChatsFromBackend\<close> (start, continuation, catch), \<open>getCurentChatMessages\<close>
    (start, continuation), \<open>openChat\<close>, \<open>postMessage\<close>, the two listeners, the three
    effects with their clean-ups, \<open>mount\<close>, \<open>unmount\<close>, and the Sign Out button
    (\<open>signOut_start\<close>, \<open>signOut_done\<close>, \<open>navigate\<close>: a successful sign-out
    navigates to \<open>/\<close>, which unmounts the page), and one per event binding of the
    JSX (\<open>onClose_alert\<close>, \<open>onClose_group_modal\<close>, \<open>onClick_new_group\<close>,
    \<open>onClick_chat\<close>, \<open>onChange_message\<close>, \<open>onClick_send\<close>). The chat-list effect is also given as
    React runs it, \<open>chats_effect_loop\<close>: a \<open>function\<close> that re-runs the body while the
    dependency array \<open>effect_deps\<close> changes, with its termination proof by the measure
    \<open>firstLoad\<close>. An \<open>async\<close> function is
    split at each \<open>await\<close>: the part before it issues a request, the continuation runs
    when the request settles (\<open>resolve_request\<close>). Frame lemmas say which fields each
    handler writes.
  \<^item> \<open>Session\<close>: the event loop. \<open>event\<close> lists everything the page can be handed:
    mount and unmount, a promise settling (\<open>Settle i r\<close>: the \<open>i\<close>-th pending call,
    in any order), a server push, and the user's interactions bound in the JSX
    (typing, Send, a chat click, closing the alert, the group-chat modal, Sign Out).
    \<open>step\<close> is
    \<open>None\<close> for an event that cannot happen in that world; \<open>reachable\<close> is the
    inductive closure from \<open>world_init\<close>. Seven invariants are proved by rule induction:
    \<open>listeners_inv\<close> (one listener per event while mounted, none otherwise),
    \<open>conn_inv\<close> (the start-up chain is single and finishes before the socket connects
    or the user is known), \<open>page_inv\<close> (no chats, open chat, packet or other call before
    the user is known; every packet speaks for the user), \<open>chats_inv\<close> (\<open>firstLoad\<close>
    is false exactly when the chat list was requested, once), \<open>calls_inv\<close> (the
    awaited calls are a sub-multiset of the calls made; every history fetch asks for 20
    messages), \<open>room_inv\<close> (while mounted every \<open>join\<close> sent and the open chat name a listed
    chat; while the chat list is awaited there is no list, open chat or join),
    \<open>live_inv\<close> (a mounted page whose user is known has a connected socket).
  \<^item> \<open>StoreSpec\<close>: the abstract Message Store of spec sections 4.2--4.3 (active room,
    its sequence or \<open>None\<close> while unloaded, join, room-guarded \<open>loadHistory\<close> and
    \<open>appendIncoming\<close>); it models the spec, not code.
  \<^item> \<open>Refinement\<close>: which store operation each page event performs (\<open>abs_event\<close>),
    the relation \<open>refines\<close> (the open chat is the active room; a loaded sequence is the
    shown list), the environment condition \<open>env_ok\<close> (history results and pushes
    only for the open chat), and the simulation lemmas \<open>refines_step\<close>, \<open>refines_run\<close>.
  \<^item> \<open>View\<close>: what the page shows as a function of its state (\<open>render\<close>: alert,
    modal flag, one \<open>chat_row\<close> per chat, the title, the message pane with a
    \<open>message_bubble\<close> per message or the \<open>No Messages Yet\<close> notice, the input), and the
    message time \<open>format_sent_at\<close>, the en-GB \<open>dd/mm, hh:mm\<close> of \<open>toLocaleString\<close> in
    the user's time zone (given as its offset in minutes), with the calendar date by
    400-, 100- and 4-year cycles (\<open>civil_of_days\<close>) and \<open>Invalid Date\<close> outside the
    range of a JavaScript \<open>Date\<close>; bounds of each cycle step and of the month and day.
  \<^item> \<open>Server\<close>: the other ends of the page's channels, none of which is in the
    repository, modelled from spec section 6 as an honest server: aws-amplify's
    \<open>getCurrentUser\<close> and the three calls of \<open>BackendInteraction\<close>
    (\<open>getUserByUsername\<close>, \<open>getChatsOfUser\<close>, \<open>getMessagesOfChat\<close>: the newest
    \<open>limit\<close> messages of the room, most recent first) answering from association-list
    tables (\<open>answer\<close>), and the chat server of the wire contract (\<open>server_recv\<close>: a
    \<open>join\<close> puts the socket in the room, as socket.io's \<open>socket.join\<close>, and nothing
    takes it out; a message is stored with the next id and the server's time and pushed
    to its room; \<open>server_reject\<close> refuses a message and sends
    \<open>error_sending_message\<close> back).
  \<^item> \<open>System\<close>: the page and the server as one event queue (spec 5): \<open>sys_step\<close>
    runs a page event, the backend settling a pending call with its \<open>answer\<close>, the
    server receiving or rejecting the next packet of the socket's outbox (only while
    connected), the next push reaching the socket (lost when it is disconnected), another client's
    message, or a clock tick; \<open>sys_reach\<close> is its reachable set from a fresh server.
    Every system step is a page step or leaves the page alone, so every invariant of
    \<open>Session\<close> holds inside the system (\<open>sys_reach_reachable\<close>); \<open>stored_inv\<close>
    (shown messages and pushes in flight are stored) is proved by the same rule
    induction (\<open>sys_reach_invariant\<close>). A demonstration deployment (Alice, the chats
    General and Team, Bob's welcome message) serves the scenarios.
  \<^item> This theory: concrete scenarios and the claims C1--C36.

  \<^bold>\<open>Modelling choices.\<close>
  The JavaScript event loop is single-threaded: each event runs to completion, so a step
  is a function. React state setters run through \<open>update_page\<close>, which does nothing on
  an unmounted component; the socket and the backend are shared and keep reacting. After
  a state change the render and its effects run before the next external event; the
  effects keyed on \<open>user\<close> run again after \<open>setUser\<close> (\<open>commit_user\<close>), clean-up
  first, and the chat-list effect runs once more after its own \<open>setFirstLoad(false)\<close>,
  which is enough because \<open>firstLoad\<close> only ever goes from true to false:
  \<open>chats_effect_loop_eq\<close> (in \<open>ChatsPage\<close>) proves this unrolling equal to React's
  re-run loop and C30 that the loop stops after one or two runs. A closure
  reads the current \<open>user\<close>, which is written once. The \<open>error_sending_message\<close>
  payload is modelled by its text; the source stores the payload itself as the alert
  value. In \<open>Session\<close> backend results are arbitrary: any
  list, any error, in any order, and late after unmount; \<open>System\<close> fixes them to what
  an honest backend answers, for the claims about the page and server together. Strings are HOL strings of
  8-bit characters; timestamps are integers. No loop of the source needs fuel: every
  handler is straight-line code, \<open>run\<close> is structural recursion over the events and
  the only loop, React's re-running of an effect, is a terminating \<open>function\<close>.
  Signing out is a backend call that settles like the others; navigating to \<open>/\<close>
  unmounts the page, because that route renders the sign-in page.

  \<^bold>\<open>What is proved.\<close>
  Message store: a push is appended exactly once (C1) and keeps the order only if it is
  not older than what is shown (C4); a history replaces the list, reversed (C2), into
  chronological order.
  Outbound: blank sends do nothing (C7); a send emits one packet and keeps no local copy
  (C8); every packet speaks for the user (C15).
  Dispatcher and connection: listeners are never doubled (C10); the socket connects only after the start-up chain (C12);
  the chat list is fetched at most once (C13).
  Rooms: clicking a chat never throws and joins it (C14). Errors: fetch failures raise their alerts (C16, C18), send errors
  raise an alert only, an authentication failure still connects (C22).
  Departures from the spec and bugs, as concrete runs: a stale history overwrites the
  open chat (C5); pushes of another chat are shown (C6); Send with no chat open throws
  (C9); unmounting during sign-in leaves the socket connected (C11); a push shown before
  the history arrives is dropped (C25).
  Exceptions and progress: the only uncaught exception is Send with no open chat (C26);
  against a backend that knows the signed-in user, a mounted page always finishes
  signing in, with its socket connected, after at most two backend answers (C27).
  Sign-out: success navigates to \<open>/\<close> and tears the page down (C28); a failure is only
  logged, with no alert, against spec 7 (C29). Effects: the chat-list effect as React
  re-runs it terminates after at most two runs (C30). Bounds: history requests ask for 20 messages, so a loaded history shows at most
  20 (C31). Round trips: the socket effect's registration and clean-up cancel exactly
  when the socket had no listener of those events, since \<open>socket.off(ev)\<close> drops every
  listener of \<open>ev\<close> (C32). Presentation: after a successful start-up the page shows the
  list (each row labelled with the fixed text \<open>3h\<close>), the first chat's title and its
  history in chronological order or \<open>No Messages Yet\<close> (C20); every valid message time
  prints as \<open>dd/mm, hh:mm\<close> with fields in range (C21). Rooms: while mounted, only chats of the user's list are joined (C34);
  a chat list arriving after unmount still joins its first chat and fetches its
  history on the shared socket (C33), like the late \<open>connect\<close> of C11. Well-formedness:
  while mounted the open chat is always a listed chat (C35). Page with backend and
  server: start-up against an honest backend shows the newest 20 messages of the first
  chat oldest first, with the socket in that chat's room (C36); a sent message comes back
  as the stored message and is appended once (C3); every shown message is one the
  server stored (C23); a send the server rejects raises an alert with the server's
  text and the typed text is gone, neither shown, stored nor left in the input, where
  spec 7 keeps it as a failed message (C19); and since the page never leaves a room, a message posted in a
  chat the user switched away from is shown in the chat now open (C17).
  Refinement: under an environment that answers only for the open chat, every run of
  the page refines the abstract Message Store (C24); C5 and C6 show the condition is
  needed.

  \<^bold>\<open>Not modelled.\<close>
  A connection that drops on its own: the socket is connected by \<open>socket.connect()\<close>
  and disconnected by \<open>socket.disconnect()\<close> only, so the network failures and automatic
  reconnections of socket.io are absent (the page itself never checks the connection and
  would go on emitting into socket.io's buffer).
  The markup and styling, and \<open>scrollToBottom\<close>, a DOM call that changes no state of
  the model: whether it runs before or after the appended message is on screen depends on
  React's batching of the \<open>setMessages\<close> update (React 17 and 18 differ), and the
  repository fixes no React version, so its effect is left open; daylight-saving changes between the times of a view (\<open>render\<close> takes one
  offset for all of them); the sign-in page the route \<open>/\<close> renders; the modal components, which are not under \<open>src/\<close> and appear only through
  the flags of the page; the real implementations of \<open>BackendInteraction\<close>,
  aws-amplify and the chat server, which are not in the repository either: \<open>Server\<close>
  models them from the spec as honest, and \<open>Session\<close> lets them answer anything;
  when the server rejects a send, which the spec leaves open (\<open>System\<close> lets it
  reject any message packet); the search box (it has no handler).

  \<^bold>\<open>Further work.\<close>
  Extending the abstract specification to the outbound pipeline and the alert channel
  (which sends the page performs, which failures it surfaces); a server that rejects
  sends; several pages sharing one server.
\<close>

section \<open>Scenario data\<close>

text \<open>
  Concrete inputs for the witnesses: a user, two chats, two messages of the first chat,
  and the event sequences that sign the user in and load the chat list.
\<close>

definition ann :: user where
  "ann = \<lparr>user_id = 1, username = ''ann'', first_name = ''Ann'', last_name = ''Lee''\<rparr>"
definition general :: chat where
  "general = \<lparr>chat_id = 7, chat_name = ''general'', image = None\<rparr>"
definition random :: chat where
  "random = \<lparr>chat_id = 8, chat_name = ''random'', image = None\<rparr>"
definition older :: message where
  "older = \<lparr>message_id = 99, message_chat_id = 7, message_user_id = 2, message_first_name = ''Bo'',
     message_last_name = ''Ray'', message_content = ''hey'', message_sent_at = 900\<rparr>"
definition hello :: message where
  "hello = \<lparr>message_id = 100, message_chat_id = 7, message_user_id = 2, message_first_name = ''Bo'',
     message_last_name = ''Ray'', message_content = ''hello'', message_sent_at = 1000\<rparr>"
definition signed_in :: "event list" where
  "signed_in = [Mount, Settle 0 (Resp_current_user (Inr ''ann'')), Settle 0 (Resp_user (Inr ann))]"
definition chats_loaded :: "event list" where
  "chats_loaded = signed_in @ [Settle 0 (Resp_chats (Inr [general, random]))]"
definition w_signed_in :: world where
  "w_signed_in = the (run world_init signed_in)"

definition w_loaded :: world where
  "w_loaded = the (run world_init chats_loaded)"

definition stale_trace :: "event list" where
  "stale_trace = chats_loaded @
     [Click_chat 1, Settle 1 (Resp_messages (Inr [])), Settle 0 (Resp_messages (Inr [hello]))]"

definition foreign_trace :: "event list" where
  "foreign_trace = chats_loaded @ [Click_chat 1, Push_new_message hello]"

definition no_chat_send :: "event list" where
  "no_chat_send = signed_in @ [Settle 0 (Resp_chats (Inr [])), Type_message ''hi'', Click_send]"

definition leak_trace :: "event list" where
  "leak_trace = [Mount, Unmount, Settle 0 (Resp_current_user (Inr ''ann'')), Settle 0 (Resp_user (Inr ann))]"

definition echo :: message where
  "echo = \<lparr>message_id = 101, message_chat_id = 7, message_user_id = 1, message_first_name = ''Ann'',
     message_last_name = ''Lee'', message_content = ''hi'', message_sent_at = 1100\<rparr>"

definition refine_trace :: "event list" where
  "refine_trace = chats_loaded @ [Settle 0 (Resp_messages (Inr [hello, older])), Push_new_message echo]"

definition no_chat_typed :: "event list" where
  "no_chat_typed = signed_in @ [Settle 0 (Resp_chats (Inr [])), Type_message ''hi'']"

section \<open>Shared facts about the scenarios\<close>

lemma w_signed_in_sel:
  "lifecycle w_signed_in = Mounted" "user (page w_signed_in) = Some ann"
  "pending w_signed_in = [Req_chats ''ann'']"
  by (simp_all add: w_signed_in_def signed_in_def page_defs run_eval ann_def)

lemma run_chats_loaded: "run world_init chats_loaded = Some w_loaded"
  by (simp add: w_loaded_def chats_loaded_def signed_in_def page_defs run_eval)

lemma run_signed_in: "run world_init signed_in = Some w_signed_in"
  by (simp add: w_signed_in_def signed_in_def page_defs run_eval)

lemma w_loaded_sel:
  "lifecycle w_loaded = Mounted" "connected (sock w_loaded)"
  "pending w_loaded = [Req_messages general 20]" "user (page w_loaded) = Some ann"
  "currentChat (page w_loaded) = Some general" "userChats (page w_loaded) = [general, random]"
  "chatMessages (page w_loaded) = []" "outbox (sock w_loaded) = [Emit_join ''ann'' 7]"
  "newMessage (page w_loaded) = []"
  by (simp_all add: w_loaded_def chats_loaded_def signed_in_def page_defs run_eval ann_def general_def)

section \<open>Message store\<close>

text \<open>
  C1. A \<open>new_message\<close> push that reaches a mounted page appends the message at the
  tail of \<open>chatMessages\<close> exactly once and changes nothing else: the socket effect
  keeps exactly one listener per event registered, so the handler runs once.
\<close>

theorem push_appends_once:
  assumes "reachable w" "lifecycle w = Mounted" "connected (sock w)"
  shows "step w (Push_new_message m) =
           Some (w\<lparr>page := (page w)\<lparr>chatMessages := chatMessages (page w) @ [m]\<rparr>\<rparr>)"
proof -
  from assms(1) have "listeners_inv w" by (rule reachable_listeners_inv)
  with assms(2) have "count_list (listeners (sock w)) New_message = 1"
    by (simp add: listeners_inv_def)
  with assms(2,3) show ?thesis
    by (simp add: socket_fire_once on_new_message_def update_page_def)
qed

theorem push_appends_once_witness:
  "reachable w_loaded \<and> lifecycle w_loaded = Mounted \<and> connected (sock w_loaded) \<and>
   step w_loaded (Push_new_message hello) =
     Some (w_loaded\<lparr>page := (page w_loaded)\<lparr>chatMessages := [hello]\<rparr>\<rparr>)"
proof -
  have r: "reachable w_loaded" by (rule run_init_reachable [OF run_chats_loaded])
  show ?thesis
    using push_appends_once [OF r, of hello] r w_loaded_sel by simp
qed

text \<open>
  C2. When the history fetch of \<open>getCurentChatMessages\<close> resolves on a mounted page,
  \<open>chatMessages\<close> becomes the fetched list reversed (the backend sends it
  most-recent-first), whatever it held before, and the request leaves the queue.
\<close>

theorem history_replaces_messages:
  assumes "lifecycle w = Mounted" "i < length (pending w)" "pending w ! i = Req_messages c n"
  shows "step w (Settle i (Resp_messages (Inr msgs))) =
           Some (w\<lparr>page := (page w)\<lparr>chatMessages := rev msgs\<rparr>, pending := remove_nth i (pending w)\<rparr>)"
  using assms by (simp add: getCurentChatMessages_done_def update_page_def)

theorem history_replaces_messages_witness:
  "step w_loaded (Settle 0 (Resp_messages (Inr [hello, older]))) =
     Some (w_loaded\<lparr>page := (page w_loaded)\<lparr>chatMessages := [older, hello]\<rparr>, pending := []\<rparr>)"
  using history_replaces_messages [of w_loaded 0 general 20 "[hello, older]"] w_loaded_sel
  by (simp add: remove_nth_def)

text \<open>
  A history the backend sends newest first (non-increasing \<open>message_sent_at\<close>) is
  shown in chronological order: after it resolves, \<open>chatMessages\<close> is sorted by
  \<open>message_sent_at\<close>.
\<close>

theorem history_chronological:
  assumes "lifecycle w = Mounted" "i < length (pending w)" "pending w ! i = Req_messages c n"
    and "sorted_wrt (\<lambda>a b. message_sent_at b \<le> message_sent_at a) msgs"
    and "step w (Settle i (Resp_messages (Inr msgs))) = Some w'"
  shows "sorted (map message_sent_at (chatMessages (page w')))"
  using assms by (auto simp: getCurentChatMessages_done_def sorted_map_rev)

theorem history_chronological_witness:
  "\<exists>w'. step w_loaded (Settle 0 (Resp_messages (Inr [hello, older]))) = Some w' \<and>
        sorted (map message_sent_at (chatMessages (page w')))"
proof -
  have s: "sorted_wrt (\<lambda>a b. message_sent_at b \<le> message_sent_at a) [hello, older]"
    by (simp add: hello_def older_def)
  obtain w' where e: "step w_loaded (Settle 0 (Resp_messages (Inr [hello, older]))) = Some w'"
    using w_loaded_sel by (simp add: getCurentChatMessages_done_def)
  show ?thesis
    using history_chronological [OF _ _ _ s e] e w_loaded_sel by simp
qed

text \<open>
  C4. A push keeps \<open>chatMessages\<close> in chronological order exactly when it is not older
  than any message already shown: the page appends without sorting, so an
  out-of-order push breaks the order.
\<close>

theorem push_order_iff:
  assumes "reachable w" "lifecycle w = Mounted" "connected (sock w)"
    and "step w (Push_new_message m) = Some w'"
  shows "sorted (map message_sent_at (chatMessages (page w'))) \<longleftrightarrow>
         sorted (map message_sent_at (chatMessages (page w))) \<and>
         (\<forall>y \<in> set (chatMessages (page w)). message_sent_at y \<le> message_sent_at m)"
proof -
  from assms(1,2) have "count_list (listeners (sock w)) New_message = 1"
    by (simp add: reachable_listener_count)
  with assms(2-4) have "chatMessages (page w') = chatMessages (page w) @ [m]"
    by (auto simp: socket_fire_once on_new_message_def)
  then show ?thesis by (simp add: sorted_map_snoc)
qed

theorem push_order_iff_witness:
  "\<exists>w'. step w_loaded (Push_new_message hello) = Some w' \<and>
        sorted (map message_sent_at (chatMessages (page w')))"
proof -
  have r: "reachable w_loaded" by (rule run_init_reachable [OF run_chats_loaded])
  obtain w' where e: "step w_loaded (Push_new_message hello) = Some w'"
    using w_loaded_sel by simp
  show ?thesis
    using push_order_iff [OF r _ _ e] e w_loaded_sel by simp
qed

text \<open>
  C5. The history fetch has no room guard: when the user switches from the first chat
  to the second and the first chat's fetch resolves last, the second chat is shown
  with the first chat's messages.
\<close>

theorem stale_history_overwrites:
  "\<exists>w. run world_init stale_trace = Some w \<and> currentChat (page w) = Some random \<and>
       chatMessages (page w) = [hello] \<and> message_chat_id hello \<noteq> chat_id random"
  by (simp add: stale_trace_def chats_loaded_def signed_in_def page_defs run_eval
      ann_def general_def random_def hello_def)

text \<open>
  C6. Pushes have no room guard either: after switching to the second chat, a
  \<open>new_message\<close> of the first chat is appended to the shown messages.
\<close>

theorem foreign_push_applied:
  "\<exists>w. run world_init foreign_trace = Some w \<and> currentChat (page w) = Some random \<and>
       chatMessages (page w) = [hello] \<and> message_chat_id hello \<noteq> chat_id random"
  by (simp add: foreign_trace_def chats_loaded_def signed_in_def page_defs run_eval
      ann_def general_def random_def hello_def)

section \<open>Outbound messages\<close>

text \<open>
  C7. Sending a blank message (empty, or only JavaScript whitespace) is a no-op: the
  guard \<open>!newMessage.trim()\<close> returns before anything is emitted or cleared.
\<close>

theorem blank_send_noop:
  assumes "lifecycle w = Mounted" "list_all js_ws (newMessage (page w))"
  shows "step w Click_send = Some w"
  using assms by (simp add: ui_def postMessage_def js_catch_def js_trim_Nil_iff)

theorem blank_send_noop_witness:
  "step (w_loaded\<lparr>page := (page w_loaded)\<lparr>newMessage := '' \<newline> ''\<rparr>\<rparr>) Click_send =
     Some (w_loaded\<lparr>page := (page w_loaded)\<lparr>newMessage := '' \<newline> ''\<rparr>\<rparr>)"
  using blank_send_noop [of "w_loaded\<lparr>page := (page w_loaded)\<lparr>newMessage := '' \<newline> ''\<rparr>\<rparr>"]
    w_loaded_sel by (simp add: js_ws_def)

text \<open>
  C8. Sending a non-blank message with a signed-in user and an open chat emits exactly
  one \<open>message\<close> packet with the user's id and names, the chat's id and the typed text,
  and clears the input; the message list is left as it is (no local pending copy).
\<close>

theorem send_emits_message:
  assumes "lifecycle w = Mounted" "user (page w) = Some u" "currentChat (page w) = Some c"
    and "\<not> list_all js_ws (newMessage (page w))"
  shows "step w Click_send =
           Some (w\<lparr>page := (page w)\<lparr>newMessage := []\<rparr>,
                   sock := (sock w)\<lparr>outbox := outbox (sock w) @
                     [Emit_message (user_id u) (first_name u) (last_name u) (chat_id c)
                        (newMessage (page w))]\<rparr>\<rparr>)"
  using assms
  by (simp add: ui_def postMessage_def js_catch_def js_trim_Nil_iff update_page_def
      update_sock_def socket_emit_def Let_def)

theorem send_emits_message_witness:
  "outbox (sock (the (step (w_loaded\<lparr>page := (page w_loaded)\<lparr>newMessage := ''hi''\<rparr>\<rparr>) Click_send))) =
     [Emit_join ''ann'' 7, Emit_message 1 ''Ann'' ''Lee'' 7 ''hi'']"
  using send_emits_message [of "w_loaded\<lparr>page := (page w_loaded)\<lparr>newMessage := ''hi''\<rparr>\<rparr>" ann general]
    w_loaded_sel by (simp add: js_ws_def ann_def general_def)

text \<open>
  C9. With the user signed in but no chat open (the user has no chats), a non-blank
  send throws a \<open>TypeError\<close> reading \<open>currentChat.chat_id\<close>: nothing is emitted and
  the typed text stays in the input.
\<close>

theorem send_without_chat_throws:
  "\<exists>w. run world_init no_chat_send = Some w \<and> uncaught w = [TypeError] \<and>
       outbox (sock w) = [] \<and> newMessage (page w) = ''hi'' \<and> currentChat (page w) = None"
  by (simp add: no_chat_send_def signed_in_def page_defs run_eval js_trim_def js_ws_def ann_def Let_def)

section \<open>Event dispatcher and connection\<close>

text \<open>
  C10. The socket effect never leaves a listener registered twice: at every reachable
  point the listeners are distinct, they are exactly \<open>new_message\<close> and
  \<open>error_sending_message\<close> while the page is mounted, and none before mounting or
  after unmounting.
\<close>

theorem listeners_never_doubled:
  assumes "reachable w"
  shows "distinct (listeners (sock w)) \<and>
         set (listeners (sock w)) = (if lifecycle w = Mounted then {New_message, Error_sending_message} else {})"
  using reachable_listeners_inv [OF assms] by (auto simp: listeners_inv_def)

theorem listeners_never_doubled_witness:
  "distinct (listeners (sock w_loaded)) \<and> set (listeners (sock w_loaded)) = {New_message, Error_sending_message}"
  using listeners_never_doubled [OF run_init_reachable [OF run_chats_loaded]] w_loaded_sel by simp

text \<open>
  C11. Teardown does not close the connection for good: if the page unmounts while
  \<open>fetchUserDetails\<close> is in flight, the rest of \<open>init\<close> still runs and connects the
  socket of the unmounted page.
\<close>

theorem connect_after_unmount:
  "\<exists>w. run world_init leak_trace = Some w \<and> lifecycle w = Unmounted \<and> connected (sock w)"
  by (simp add: leak_trace_def page_defs run_eval)

text \<open>
  C12. The socket is connected only after the start-up chain has settled: whenever it
  is connected, the page has mounted and neither \<open>getCurrentUser\<close> nor
  \<open>getUserByUsername\<close> is in flight.
\<close>

theorem connect_after_user_fetch:
  assumes "reachable w" "connected (sock w)"
  shows "lifecycle w \<noteq> Before_mount \<and> (\<forall>q \<in> set (pending w). \<not> is_user_req q)"
  using reachable_conn_inv [OF assms(1)] assms(2) by (auto simp: conn_inv_def filter_empty_conv)

theorem connect_after_user_fetch_witness:
  "connected (sock w_loaded) \<and> lifecycle w_loaded \<noteq> Before_mount \<and>
   \<not> is_user_req (hd (pending w_loaded))"
  using connect_after_user_fetch [OF run_init_reachable [OF run_chats_loaded]] w_loaded_sel by simp

text \<open>
  C13. \<open>getChatsOfUser\<close> is called at most once per page instance: the
  \<open>firstLoad\<close> flag stops the effect on every later run.
\<close>

theorem chats_fetched_once:
  assumes "reachable w"
  shows "length (filter is_req_chats (requests w)) \<le> 1"
  using reachable_chats_inv [OF assms] by (simp add: chats_inv_def)

theorem chats_fetched_once_witness:
  "length (filter is_req_chats (requests w_loaded)) \<le> 1"
  using chats_fetched_once [OF run_init_reachable [OF run_chats_loaded]] .

section \<open>Rooms and the chat list\<close>

text \<open>
  C14. Clicking a chat of the list never throws: the user is known whenever the list
  is non-empty, so \<open>openChat\<close> sets the open chat, emits \<open>join\<close> with the user's
  name and the chat's id, and starts the history fetch of 20 messages.
\<close>

theorem open_chat_click:
  assumes "reachable w" "lifecycle w = Mounted" "i < length (userChats (page w))"
    and "c = userChats (page w) ! i"
  shows "\<exists>u. user (page w) = Some u \<and>
           step w (Click_chat i) =
             Some (issue (Req_messages c 20)
               (w\<lparr>page := (page w)\<lparr>currentChat := Some c\<rparr>,
                  sock := (sock w)\<lparr>outbox := outbox (sock w) @ [Emit_join (username u) (chat_id c)]\<rparr>\<rparr>))"
proof -
  from assms(1) have "page_inv w" by (rule reachable_page_inv)
  with assms(3) obtain u where u: "user (page w) = Some u"
    by (cases "user (page w)") (auto simp: page_inv_def)
  with assms(2-4) show ?thesis
    by (simp add: ui_def openChat_def js_catch_def getCurentChatMessages_start_def update_page_def
        update_sock_def socket_emit_def)
qed

theorem open_chat_click_witness:
  "step w_loaded (Click_chat 1) =
     Some (issue (Req_messages random 20)
       (w_loaded\<lparr>page := (page w_loaded)\<lparr>currentChat := Some random\<rparr>,
          sock := (sock w_loaded)\<lparr>outbox := [Emit_join ''ann'' 7, Emit_join ''ann'' 8]\<rparr>\<rparr>))"
  using open_chat_click [OF run_init_reachable [OF run_chats_loaded], of 1 random] w_loaded_sel
  by (auto simp: ann_def random_def)

text \<open>
  C15. Every packet the page has emitted speaks for the signed-in user: each \<open>join\<close>
  carries the user's name, each \<open>message\<close> the user's id and names and a non-blank
  text.
\<close>

theorem emits_speak_for_user:
  assumes "reachable w"
  shows "\<forall>p \<in> set (outbox (sock w)). emit_by (user (page w)) p"
  using reachable_page_inv [OF assms] by (simp add: page_inv_def)

theorem emits_speak_for_user_witness:
  "emit_by (user (page w_loaded)) (hd (outbox (sock w_loaded)))"
  using emits_speak_for_user [OF run_init_reachable [OF run_chats_loaded]] w_loaded_sel by simp

text \<open>
  C16. A failed history fetch empties the message list and raises the error alert
  \<open>"Failed to Fetch Messages Of Chat"\<close>.
\<close>

theorem messages_fetch_error:
  assumes "lifecycle w = Mounted" "i < length (pending w)" "pending w ! i = Req_messages c n"
  shows "step w (Settle i (Resp_messages (Inl err))) =
           Some (w\<lparr>page := (page w)\<lparr>chatMessages := [], showAlertModal := True,
                    alertModalType := Alert_error,
                    alertModalValue := ''Failed to Fetch Messages Of Chat''\<rparr>,
                   pending := remove_nth i (pending w)\<rparr>)"
  using assms by (simp add: getCurentChatMessages_done_def setAlert_def update_page_def)

theorem messages_fetch_error_witness:
  "step w_loaded (Settle 0 (Resp_messages (Inl ''timeout''))) =
     Some (w_loaded\<lparr>page := (page w_loaded)\<lparr>chatMessages := [], showAlertModal := True,
             alertModalType := Alert_error, alertModalValue := ''Failed to Fetch Messages Of Chat''\<rparr>,
           pending := []\<rparr>)"
  using messages_fetch_error [of w_loaded 0 general 20 "''timeout''"] w_loaded_sel
  by (simp add: remove_nth_def)

text \<open>
  When the chat list arrives non-empty, the page stores it and opens its first
  chat: \<open>join\<close> is emitted for it and its history is requested.
\<close>

theorem chats_loaded_opens_first:
  assumes "lifecycle w = Mounted" "user (page w) = Some u"
    and "i < length (pending w)" "pending w ! i = Req_chats n"
  shows "step w (Settle i (Resp_chats (Inr (c # cs)))) =
           Some (issue (Req_messages c 20)
             (w\<lparr>page := (page w)\<lparr>userChats := c # cs, currentChat := Some c\<rparr>,
                sock := (sock w)\<lparr>outbox := outbox (sock w) @ [Emit_join (username u) (chat_id c)]\<rparr>,
                pending := remove_nth i (pending w)\<rparr>))"
  using assms
  by (simp add: getChatsFromBackend_done_def openChat_def getCurentChatMessages_start_def
      update_page_def update_sock_def socket_emit_def)

theorem chats_loaded_opens_first_witness:
  "currentChat (page (the (step w_signed_in (Settle 0 (Resp_chats (Inr [general, random])))))) =
     Some general"
  using chats_loaded_opens_first [OF w_signed_in_sel(1,2), of 0 "''ann''" general "[random]"]
    w_signed_in_sel(3) by simp

text \<open>
  C18. A failed chat-list fetch leaves the list empty and raises the error alert
  \<open>"Failed to Fetch Chats"\<close>.
\<close>

theorem chats_fetch_error:
  assumes "lifecycle w = Mounted" "i < length (pending w)" "pending w ! i = Req_chats n"
  shows "step w (Settle i (Resp_chats (Inl err))) =
           Some (w\<lparr>page := (page w)\<lparr>userChats := [], showAlertModal := True,
                    alertModalType := Alert_error, alertModalValue := ''Failed to Fetch Chats''\<rparr>,
                   pending := remove_nth i (pending w)\<rparr>)"
  using assms by (simp add: getChatsFromBackend_done_def chats_failed_def setAlert_def update_page_def)

theorem chats_fetch_error_witness:
  "userChats (page (the (step w_signed_in (Settle 0 (Resp_chats (Inl ''503'')))))) = [] \<and>
   alertModalValue (page (the (step w_signed_in (Settle 0 (Resp_chats (Inl ''503'')))))) =
     ''Failed to Fetch Chats''"
  using chats_fetch_error [OF w_signed_in_sel(1), of 0 "''ann''" "''503''"] w_signed_in_sel(3) by simp

section \<open>Errors and start-up\<close>

text \<open>
  An \<open>error_sending_message\<close> event on a mounted page raises the error alert with
  the server's text and changes nothing else: no message changes state.
\<close>

theorem send_error_alerts:
  assumes "reachable w" "lifecycle w = Mounted" "connected (sock w)"
  shows "step w (Push_send_error e) =
           Some (w\<lparr>page := (page w)\<lparr>showAlertModal := True, alertModalType := Alert_error,
                                    alertModalValue := e\<rparr>\<rparr>)"
proof -
  from assms(1,2) have "count_list (listeners (sock w)) Error_sending_message = 1"
    by (simp add: reachable_listener_count)
  with assms(2,3) show ?thesis
    by (simp add: socket_fire_once on_error_sending_message_def setAlert_def update_page_def)
qed

theorem send_error_alerts_witness:
  "alertModalValue (page (the (step w_loaded (Push_send_error ''rejected'')))) = ''rejected'' \<and>
   chatMessages (page (the (step w_loaded (Push_send_error ''rejected'')))) = []"
  using send_error_alerts [OF run_init_reachable [OF run_chats_loaded], of "''rejected''"] w_loaded_sel
  by simp

text \<open>
  C20. What the user sees when the start-up chain succeeds: no alert, the chat list
  with one row per chat (each labelled with the fixed text \<open>3h\<close>), the first chat's
  name as title, its history as bubbles in chronological order or the notice
  \<open>No Messages Yet\<close> when it is empty, and an empty input.
\<close>

theorem startup_view:
  "map_option (render tz \<circ> page)
     (run world_init
       [Mount, Settle 0 (Resp_current_user (Inr nm)), Settle 0 (Resp_user (Inr u)),
        Settle 0 (Resp_chats (Inr (c # cs))), Settle 0 (Resp_messages (Inr msgs))]) =
   Some \<lparr>view_alert = None, view_group_modal = False, view_rows = map chat_row (c # cs),
         view_title = chat_name c,
         view_pane = (if msgs = [] then No_messages else Bubbles (map (message_bubble tz) (rev msgs))),
         view_input = []\<rparr>"
  by (simp add: page_defs run_eval socket_defs render_def)

text \<open>
  C21. A message's time is shown as \<open>dd/mm, hh:mm\<close>: for every time value a
  JavaScript \<open>Date\<close> can hold and every time zone, the day is 1--31, the month 1--12,
  the hour 0--23 and the minute 0--59, each with two digits, twelve characters in all.
\<close>

theorem format_sent_at_fields:
  assumes "js_time_valid t"
  shows "\<exists>d mo h mi. format_sent_at tz t =
      two_digits d @ ''/'' @ two_digits mo @ '', '' @ two_digits h @ '':'' @ two_digits mi \<and>
    1 \<le> d \<and> d \<le> 31 \<and> 1 \<le> mo \<and> mo \<le> 12 \<and> h < 24 \<and> mi < 60 \<and>
    length (format_sent_at tz t) = 12"
proof -
  define mins where "mins = t div 60000 + tz"
  obtain y mo d where c: "civil_of_days (mins div 1440) = (y, mo, d)" by (metis prod_cases3)
  from civil_of_days_bounds [OF c] have "1 \<le> mo" "mo \<le> 12" "1 \<le> d" "d \<le> 31" by simp_all
  then have b: "1 \<le> nat mo" "nat mo \<le> 12" "1 \<le> nat d" "nat d \<le> 31" by arith+
  have "0 \<le> mins mod 1440" "mins mod 1440 < 1440" by simp_all
  then have h: "nat (mins mod 1440 div 60) < 24" "nat (mins mod 1440 mod 60) < 60" by simp_all
  have f: "format_sent_at tz t =
      two_digits (nat d) @ ''/'' @ two_digits (nat mo) @ '', '' @
      two_digits (nat (mins mod 1440 div 60)) @ '':'' @ two_digits (nat (mins mod 1440 mod 60))"
    using assms c by (simp add: format_sent_at_def mins_def Let_def)
  show ?thesis
    by (rule exI [of _ "nat d"], rule exI [of _ "nat mo"], rule exI [of _ "nat (mins mod 1440 div 60)"],
        rule exI [of _ "nat (mins mod 1440 mod 60)"]) (use f b h in simp)
qed

theorem format_sent_at_fields_witness:
  "format_sent_at 60 1762697100000 = ''09/11, 15:05'' \<and>
   (\<exists>d mo h mi. format_sent_at 60 1762697100000 =
      two_digits d @ ''/'' @ two_digits mo @ '', '' @ two_digits h @ '':'' @ two_digits mi \<and>
    1 \<le> d \<and> d \<le> 31 \<and> 1 \<le> mo \<and> mo \<le> 12 \<and> h < 24 \<and> mi < 60 \<and>
    length (format_sent_at 60 1762697100000) = 12)"
proof
  show "format_sent_at 60 1762697100000 = ''09/11, 15:05''" by code_simp
  show "\<exists>d mo h mi. format_sent_at 60 1762697100000 =
      two_digits d @ ''/'' @ two_digits mo @ '', '' @ two_digits h @ '':'' @ two_digits mi \<and>
    1 \<le> d \<and> d \<le> 31 \<and> 1 \<le> mo \<and> mo \<le> 12 \<and> h < 24 \<and> mi < 60 \<and>
    length (format_sent_at 60 1762697100000) = 12"
    by (rule format_sent_at_fields) (simp add: js_time_valid_def)
qed

text \<open>
  C22. A failed \<open>getCurrentUser\<close> raises an alert with the error's message and the
  rest of \<open>init\<close> still connects the socket; the user stays unknown.
\<close>

theorem auth_failure_still_connects:
  assumes "lifecycle w = Mounted" "i < length (pending w)" "pending w ! i = Req_current_user"
  shows "step w (Settle i (Resp_current_user (Inl err))) =
           Some (w\<lparr>page := (page w)\<lparr>showAlertModal := True, alertModalType := Alert_error,
                                    alertModalValue := err\<rparr>,
                   sock := (sock w)\<lparr>connected := True\<rparr>,
                   pending := remove_nth i (pending w)\<rparr>)"
  using assms
  by (simp add: fetchUserDetails_current_user_def init_continue_def setAlert_def update_page_def
      update_sock_def socket_connect_def)

theorem auth_failure_still_connects_witness:
  "connected (sock (the (step (mount world_init) (Settle 0 (Resp_current_user (Inl ''no session'')))))) \<and>
   user (page (the (step (mount world_init) (Settle 0 (Resp_current_user (Inl ''no session'')))))) = None"
proof -
  have m: "lifecycle (mount world_init) = Mounted" "pending (mount world_init) = [Req_current_user]"
    by (simp_all add: page_defs)
  show ?thesis
    using auth_failure_still_connects [OF m(1), of 0 "''no session''"] m by (simp add: page_defs)
qed

text \<open>
  When \<open>getUserByUsername\<close> resolves on a mounted page, the user is stored, the
  socket is connected, the listeners are registered once each, and the chat list is
  requested for the user's name (the \<open>firstLoad\<close> effect fires once).
\<close>

theorem user_loaded_starts_session:
  assumes "reachable w" "lifecycle w = Mounted" "i < length (pending w)"
    and "pending w ! i = Req_user_by_name n"
  shows "\<exists>w'. step w (Settle i (Resp_user (Inr u))) = Some w' \<and> user (page w') = Some u \<and>
           connected (sock w') \<and> \<not> firstLoad (page w') \<and>
           listeners (sock w') = [New_message, Error_sending_message] \<and>
           pending w' = remove_nth i (pending w) @ [Req_chats (username u)]"
proof -
  have q: "is_user_req (pending w ! i)" using assms(4) by simp
  from assms(1) have "conn_inv w" "page_inv w" "listeners_inv w"
    by (simp_all add: reachable_conn_inv reachable_page_inv reachable_listeners_inv)
  moreover from assms(3) q have "filter is_user_req (pending w) \<noteq> []"
    by (auto simp: filter_empty_conv)
  ultimately have "user (page w) = None" "firstLoad (page w)"
    and l: "listeners (sock w) = [New_message, Error_sending_message]"
    using assms(2) by (auto simp: conn_inv_def page_inv_def listeners_inv_def)
  with assms(2-4) show ?thesis
    by (simp add: fetchUserDetails_user_def commit_user_def chats_effect_def chats_effect_body_def
        getChatsFromBackend_start_def init_continue_def socket_effect_setup_def
        socket_effect_cleanup_def Let_def)
qed

theorem user_loaded_starts_session_witness:
  "user (page (the (step (the (step (mount world_init) (Settle 0 (Resp_current_user (Inr ''ann'')))))
      (Settle 0 (Resp_user (Inr ann)))))) = Some ann"
proof -
  let ?w = "the (step (mount world_init) (Settle 0 (Resp_current_user (Inr ''ann''))))"
  have e: "step (mount world_init) (Settle 0 (Resp_current_user (Inr ''ann''))) = Some ?w"
    by (simp add: page_defs run_eval)
  have r: "reachable ?w" by (rule reachable.step [OF reachable_mount e])
  have f: "lifecycle ?w = Mounted" "pending ?w = [Req_user_by_name ''ann'']"
    by (simp_all add: page_defs run_eval)
  show ?thesis
    using user_loaded_starts_session [OF r f(1), of 0 "''ann''" ann] f(2) by auto
qed

section \<open>Refinement of the abstract Message Store\<close>

text \<open>
  C24. The page implements the Message Store of spec section 4.3 whenever the
  environment answers history fetches and pushes messages only for the open chat: along
  any run from the initial world, the open chat is the store's active room and, once
  that room is loaded, the page shows exactly the store's sequence. (C5 and C6 show
  that the condition on the environment cannot be dropped.)
\<close>

theorem page_refines_store:
  assumes "run world_init es = Some w" "env_ok_run world_init es"
  shows "refines (spec_run store_init (abs_run world_init es)) w"
  using refines_run [OF reachable.init refines_init assms(2,1)] .

theorem page_refines_store_witness:
  "store (spec_run store_init (abs_run world_init refine_trace)) = Some [older, hello, echo] \<and>
   chatMessages (page (the (run world_init refine_trace))) = [older, hello, echo]"
proof -
  have r: "run world_init refine_trace = Some (the (run world_init refine_trace))"
    by (simp add: refine_trace_def chats_loaded_def signed_in_def page_defs run_eval)
  have e: "env_ok_run world_init refine_trace"
    by (simp add: refine_trace_def chats_loaded_def signed_in_def page_defs run_eval
        general_def echo_def)
  have a: "store (spec_run store_init (abs_run world_init refine_trace)) = Some [older, hello, echo]"
    by (simp add: refine_trace_def chats_loaded_def signed_in_def page_defs run_eval store_init_def
        is_active_def general_def echo_def)
  show ?thesis
    using page_refines_store [OF r e] a by (simp add: refines_def)
qed

text \<open>
  C25. A push that arrives between joining a chat and the arrival of its history is
  discarded: the history replaces the list, so a message the user already saw
  disappears unless the fetched history happens to contain it.
\<close>

theorem push_lost_on_history:
  "\<exists>w1 w2. run world_init (chats_loaded @ [Push_new_message hello]) = Some w1 \<and>
           chatMessages (page w1) = [hello] \<and>
           step w1 (Settle 0 (Resp_messages (Inr []))) = Some w2 \<and> chatMessages (page w2) = []"
  by (simp add: chats_loaded_def signed_in_def page_defs run_eval)

section \<open>Exceptions and progress\<close>

text \<open>
  C26. The only exception that escapes a handler is the one of C9: a step that records
  an uncaught error is a Send on a mounted page with non-blank input and no open chat.
  Chat clicks never throw (the user is known whenever the list is non-empty), and the
  throw of \<open>openChat\<close> inside \<open>getChatsFromBackend\<close> is caught there.
\<close>

theorem uncaught_only_from_send_without_chat:
  assumes "reachable w" "step w e = Some w'" "uncaught w' \<noteq> uncaught w"
  shows "e = Click_send \<and> lifecycle w = Mounted \<and> currentChat (page w) = None \<and>
         \<not> list_all js_ws (newMessage (page w))"
proof (cases e)
  case (Settle i r)
  with assms(2,3) show ?thesis
    by (auto dest: resolve_request_uncaught split: if_splits)
next
  case (Push_new_message m)
  with assms(2,3) show ?thesis
    by (auto simp: socket_fire_def funpow_on_new_message split: if_splits)
next
  case (Push_send_error x)
  with assms(2,3) show ?thesis
    by (auto simp: socket_fire_def funpow_on_error_sending_message split: if_splits)
next
  case (Click_chat i)
  from assms(1) have pi: "page_inv w" by (rule reachable_page_inv)
  show ?thesis
  proof (cases "i < length (userChats (page w))")
    case True
    with pi obtain u where "user (page w) = Some u"
      by (cases "user (page w)") (auto simp: page_inv_def)
    with True Click_chat assms(2,3) show ?thesis
      by (auto simp: ui_def openChat_def js_catch_def getCurentChatMessages_start_def split: if_splits)
  next
    case False
    with Click_chat assms(2) show ?thesis by simp
  qed
next
  case Click_send
  from assms(1) have pi: "page_inv w" by (rule reachable_page_inv)
  with Click_send assms(2,3) show ?thesis
    by (auto simp: ui_def postMessage_def js_catch_def js_trim_Nil_iff page_inv_def Let_def
        split: if_splits option.splits)
qed (use assms(2,3) in \<open>auto simp: ui_def split: if_splits\<close>)

theorem uncaught_only_from_send_without_chat_witness:
  "currentChat (page (the (run world_init no_chat_typed))) = None \<and>
   \<not> list_all js_ws (newMessage (page (the (run world_init no_chat_typed))))"
proof -
  let ?w = "the (run world_init no_chat_typed)"
  have r: "run world_init no_chat_typed = Some ?w"
    by (simp add: no_chat_typed_def signed_in_def page_defs run_eval)
  have p: "lifecycle ?w = Mounted" "user (page ?w) = Some ann"
    "currentChat (page ?w) = None" "newMessage (page ?w) = ''hi''" "uncaught ?w = []"
    by (simp_all add: no_chat_typed_def signed_in_def page_defs run_eval ann_def)
  have s: "step ?w Click_send = Some (?w\<lparr>uncaught := [TypeError]\<rparr>)"
    using p by (simp add: ui_def postMessage_def js_catch_def js_trim_def js_ws_def Let_def)
  show ?thesis
    using uncaught_only_from_send_without_chat [OF run_init_reachable [OF r] s] p by simp
qed

text \<open>
  C27. Signing in always completes (spec 4.1, session start): in every state the page
  reaches with a backend that knows the signed-in user, a mounted page either has its
  user already or gets it, with the socket connected, after the backend answers at most
  two of the awaited calls.
\<close>

theorem signin_completes:
  assumes "sys_reach (w, s)" "lifecycle w = Mounted"
    and "getCurrentUser s = Inr n" "getUserByUsername s n = Inr u"
  shows "\<exists>es w' s'. length es \<le> 2 \<and> sys_run (w, s) es = Some (w', s') \<and>
    lifecycle w' = Mounted \<and> user (page w') \<noteq> None \<and> connected (sock w')"
proof -
  have live: "connected (sock w')" if "sys_reach (w', s')" "lifecycle w' = Mounted" "user (page w') \<noteq> None"
    for w' s'
    using reachable_live_inv [OF sys_reach_reachable [OF that(1)]] that(2,3) by (simp add: live_inv_def)
  show ?thesis
  proof (cases "user (page w) = None")
    case False
    then show ?thesis using assms(1,2) live [of w s] by (intro exI [of _ "[]"]) simp
  next
    case True
    with sys_reach_signin [OF assms(1)] assms
    have "filter is_user_req (pending w) \<noteq> []"
      and all: "list_all (\<lambda>r. r = Req_current_user \<or> r = Req_user_by_name n) (filter is_user_req (pending w))"
      by (simp_all add: signin_inv_def)
    then obtain i where i: "i < length (pending w)" "is_user_req (pending w ! i)"
      by (metis filter_False in_set_conv_nth)
    with all have "pending w ! i = Req_current_user \<or> pending w ! i = Req_user_by_name n"
      by (auto simp: list_all_iff)
    then show ?thesis
    proof
      assume "pending w ! i = Req_user_by_name n"
      from answer_user_by_name [OF i(1) this assms(2,4)] obtain w' where
        "sys_step (w, s) (Backend_answers i) = Some (w', s)" "lifecycle w' = Mounted" "user (page w') = Some u"
        by blast
      moreover from assms(1) this(1) have "sys_reach (w', s)" by (rule sys_reach.step)
      ultimately show ?thesis using live [of w' s] by (intro exI [of _ "[Backend_answers i]"]) simp
    next
      assume "pending w ! i = Req_current_user"
      from answer_current_user [OF i(1) this assms(3)] obtain w1 where
        w1: "sys_step (w, s) (Backend_answers i) = Some (w1, s)" "lifecycle w1 = Mounted"
          "pending w1 = remove_nth i (pending w) @ [Req_user_by_name n]"
        using assms(2) by auto
      let ?j = "length (pending w) - 1"
      have j: "?j < length (pending w1)" "pending w1 ! ?j = Req_user_by_name n"
        using w1(3) i(1) by (simp_all add: length_remove_nth nth_append)
      from answer_user_by_name [OF j w1(2) assms(4)] obtain w' where
        w': "sys_step (w1, s) (Backend_answers ?j) = Some (w', s)" "lifecycle w' = Mounted"
          "user (page w') = Some u"
        by blast
      have "sys_reach (w1, s)" using assms(1) w1(1) by (rule sys_reach.step)
      then have "sys_reach (w', s)" using w'(1) by (rule sys_reach.step)
      with w1(1) w' live [of w' s] show ?thesis
        by (intro exI [of _ "[Backend_answers i, Backend_answers ?j]"]) simp
    qed
  qed
qed

theorem signin_completes_witness:
  "\<exists>es w' s'. length es \<le> 2 \<and> sys_run (mount world_init, demo_server) es = Some (w', s') \<and>
    lifecycle w' = Mounted \<and> user (page w') \<noteq> None \<and> connected (sock w')"
proof -
  have "sys_reach (world_init, demo_server)"
    by (rule sys_reach.init) (simp add: demo_server_def server_fresh_def)
  then have "sys_reach (mount world_init, demo_server)"
    by (rule sys_reach.step [where e = "Page_event Mount"]) simp
  then show ?thesis
    by (rule signin_completes [where n = "''alice''" and u = alice])
       (simp_all add: page_defs demo_defs getCurrentUser_def getUserByUsername_def)
qed

text \<open>
  C28. Signing out from the mounted page: the click calls \<open>signOut\<close>, and once it
  resolves the page navigates to \<open>/\<close>, which unmounts it, so its socket listeners are
  removed and the socket is closed; the page data and the other backend calls are left
  as they were.
\<close>

theorem sign_out_leaves_page:
  assumes "reachable w" "lifecycle w = Mounted"
  shows "\<exists>w'. run w [Click_sign_out, Settle (length (pending w)) (Resp_sign_out (Inr ()))] = Some w' \<and>
    navigations w' = navigations w @ [''/''] \<and> lifecycle w' = Unmounted \<and>
    listeners (sock w') = [] \<and> \<not> connected (sock w') \<and>
    page w' = page w \<and> pending w' = pending w"
proof -
  have "listeners (sock w) = [New_message, Error_sending_message]"
    using reachable_listeners_inv [OF assms(1)] assms(2) by (simp add: listeners_inv_def)
  with assms(2) show ?thesis
    by (simp add: ui_def signOut_start_def remove_nth_def)
qed

theorem sign_out_leaves_page_witness:
  "\<exists>w'. run w_loaded [Click_sign_out, Settle 1 (Resp_sign_out (Inr ()))] = Some w' \<and>
    navigations w' = [''/''] \<and> lifecycle w' = Unmounted \<and> listeners (sock w') = [] \<and>
    \<not> connected (sock w') \<and> page w' = page w_loaded \<and> pending w' = pending w_loaded"
proof -
  have "navigations w_loaded = []"
    by (simp add: w_loaded_def chats_loaded_def signed_in_def page_defs run_eval)
  then show ?thesis
    using sign_out_leaves_page [OF run_init_reachable [OF run_chats_loaded]] w_loaded_sel by simp
qed

text \<open>
  C29. A failed sign-out is only written to the console: after the click and the
  rejection of \<open>signOut\<close> the page is the one before the click, with no alert, still
  mounted and connected; only the backend call is recorded.
\<close>

theorem sign_out_failure_silent:
  assumes "lifecycle w = Mounted"
  shows "run w [Click_sign_out, Settle (length (pending w)) (Resp_sign_out (Inl err))] =
    Some (w\<lparr>requests := requests w @ [Req_sign_out]\<rparr>)"
  using assms by (simp add: ui_def signOut_start_def issue_def remove_nth_def signOut_done_def)

theorem sign_out_failure_silent_witness:
  "run w_loaded [Click_sign_out, Settle 1 (Resp_sign_out (Inl ''network''))] =
    Some (w_loaded\<lparr>requests := requests w_loaded @ [Req_sign_out]\<rparr>)"
  using sign_out_failure_silent [of w_loaded "''network''"] w_loaded_sel by simp

text \<open>
  C30. The chat-list effect terminates after one or two runs of its body, and at that
  point one more run would change no dependency, so React schedules none.
\<close>

theorem chats_effect_settles:
  "\<exists>k. 1 \<le> k \<and> k \<le> 2 \<and> chats_effect_loop w = (chats_effect_body ^^ k) w \<and>
     effect_deps (chats_effect_body (chats_effect_loop w)) = effect_deps (chats_effect_loop w)"
proof (cases "effect_deps (chats_effect_body w) = effect_deps w")
  case True
  then have "chats_effect_loop w = (chats_effect_body ^^ 1) w"
    by (subst chats_effect_loop.simps) simp
  moreover have "effect_deps (chats_effect_body (chats_effect_body w)) = effect_deps (chats_effect_body w)"
    using True by (auto simp: effect_deps_def)
  ultimately show ?thesis by (intro exI [of _ 1]) simp
next
  case False
  then have "\<not> firstLoad (page (chats_effect_body w))"
    using chats_effect_body_idle [of w] by (auto simp: effect_deps_def)
  then have idle: "chats_effect_body (chats_effect_body w) = chats_effect_body w"
    by (rule chats_effect_body_idle)
  with False have "chats_effect_loop w = (chats_effect_body ^^ 2) w"
    by (subst chats_effect_loop.simps, subst chats_effect_loop.simps)
       (simp add: Let_def numeral_2_eq_2)
  with idle show ?thesis
    by (intro exI [of _ 2]) (simp add: numeral_2_eq_2 del: chats_effect_loop.simps)
qed

text \<open>
  C31. Every history fetch asks the backend for 20 messages, so when the backend honours
  the limit of \<open>fetchRecentMessages(roomId, limit)\<close> (spec 6), a history that
  settles on the mounted page leaves at most 20 messages on screen.
\<close>

theorem history_within_limit:
  assumes "reachable w" "lifecycle w = Mounted" "i < length (pending w)"
    and "pending w ! i = Req_messages c n" "length msgs \<le> n"
    and "step w (Settle i (Resp_messages (Inr msgs))) = Some w'"
  shows "n = 20 \<and> length (chatMessages (page w')) \<le> 20"
proof -
  have "set (pending w) \<subseteq> set (requests w)" and "list_all limit_ok (requests w)"
    using reachable_calls_inv [OF assms(1)] by (auto simp: calls_inv_def dest!: set_mset_mono)
  moreover have "pending w ! i \<in> set (pending w)" using assms(3) by simp
  ultimately have "pending w ! i \<in> set (requests w)" and "list_all limit_ok (requests w)" by auto
  then have n: "n = 20" using assms(4) by (auto simp: list_all_iff)
  have "chatMessages (page w') = rev msgs"
    using assms(2-4,6) by (auto simp: getCurentChatMessages_done_def update_page_def)
  with n assms(5) show ?thesis by simp
qed

theorem history_within_limit_witness:
  "\<exists>w'. step w_loaded (Settle 0 (Resp_messages (Inr [hello, older]))) = Some w' \<and>
     length (chatMessages (page w')) \<le> 20"
proof -
  obtain w' where e: "step w_loaded (Settle 0 (Resp_messages (Inr [hello, older]))) = Some w'"
    using w_loaded_sel by (simp add: getCurentChatMessages_done_def)
  have "20 = (20::nat) \<and> length (chatMessages (page w')) \<le> 20"
    by (rule history_within_limit [where c = general, OF run_init_reachable [OF run_chats_loaded] _ _ _ _ e])
       (simp_all add: w_loaded_sel)
  with e show ?thesis by blast
qed

text \<open>
  C32. The socket effect's registration and its clean-up undo each other on the shared
  socket exactly when it has no \<open>new_message\<close> or \<open>error_sending_message\<close> listener
  of its own: \<open>socket.off(ev)\<close> without a handler removes every listener of the event,
  also one registered before the page's.
\<close>

theorem socket_effect_roundtrip:
  "socket_effect_cleanup (socket_effect_setup w) = w \<longleftrightarrow>
   New_message \<notin> set (listeners (sock w)) \<and> Error_sending_message \<notin> set (listeners (sock w))"
proof
  assume "socket_effect_cleanup (socket_effect_setup w) = w"
  then have "listeners (sock (socket_effect_cleanup (socket_effect_setup w))) = listeners (sock w)"
    by simp
  then have "filter (\<lambda>e. e \<noteq> Error_sending_message) (filter (\<lambda>e. e \<noteq> New_message) (listeners (sock w))) =
      listeners (sock w)"
    by (simp add: socket_effect_setup_def socket_effect_cleanup_def)
  then show "New_message \<notin> set (listeners (sock w)) \<and> Error_sending_message \<notin> set (listeners (sock w))"
    by (metis (mono_tags, lifting) filter_id_conv mem_Collect_eq set_filter)
next
  assume "New_message \<notin> set (listeners (sock w)) \<and> Error_sending_message \<notin> set (listeners (sock w))"
  then have "filter (\<lambda>e. e \<noteq> Error_sending_message) (filter (\<lambda>e. e \<noteq> New_message) (listeners (sock w))) =
      listeners (sock w)"
    by (auto simp: filter_id_conv)
  then show "socket_effect_cleanup (socket_effect_setup w) = w"
    by (simp add: socket_effect_setup_def socket_effect_cleanup_def socket_defs)
qed

theorem socket_effect_roundtrip_witness:
  "socket_effect_cleanup (socket_effect_setup world_init) = world_init \<and>
   socket_effect_cleanup (socket_effect_setup w_loaded) \<noteq> w_loaded"
proof -
  have "listeners (sock w_loaded) = [New_message, Error_sending_message]"
    using reachable_listeners_inv [OF run_init_reachable [OF run_chats_loaded]] w_loaded_sel
    by (simp add: listeners_inv_def)
  then show ?thesis
    using socket_effect_roundtrip [of world_init] socket_effect_roundtrip [of w_loaded] by simp
qed

text \<open>
  C33. A chat list that arrives after the page unmounted still runs \<open>openChat\<close> on its
  first chat: \<open>join\<close> is emitted on the shared socket and the chat's history is
  requested, while the page itself no longer changes.
\<close>

theorem late_chats_join:
  assumes "lifecycle w = Unmounted" "i < length (pending w)" "pending w ! i = Req_chats n"
    and "user (page w) = Some u"
  shows "\<exists>w'. step w (Settle i (Resp_chats (Inr (c # cs)))) = Some w' \<and>
    page w' = page w \<and> lifecycle w' = Unmounted \<and>
    outbox (sock w') = outbox (sock w) @ [Emit_join (username u) (chat_id c)] \<and>
    pending w' = remove_nth i (pending w) @ [Req_messages c 20]"
  using assms
  by (simp add: getChatsFromBackend_done_def openChat_def getCurentChatMessages_start_def
      update_page_def)

theorem late_chats_join_witness:
  "reachable (unmount w_signed_in) \<and>
   (\<exists>w'. step (unmount w_signed_in) (Settle 0 (Resp_chats (Inr [general, random]))) = Some w' \<and>
      lifecycle w' = Unmounted \<and> outbox (sock w') = outbox (sock w_signed_in) @ [Emit_join ''ann'' 7] \<and>
      pending w' = [Req_messages general 20])"
proof -
  have r: "reachable w_signed_in"
    by (rule run_init_reachable [OF run_signed_in])
  have "reachable (unmount w_signed_in)"
    using reachable.step [OF r, of Unmount] w_signed_in_sel by simp
  moreover have "lifecycle (unmount w_signed_in) = Unmounted" by simp
  ultimately show ?thesis
    using late_chats_join [of "unmount w_signed_in" 0 "''ann''" ann general "[random]"] w_signed_in_sel
    by (simp add: ann_def general_def remove_nth_def)
qed

text \<open>
  C34. While the page is mounted, every \<open>join\<close> it has sent names a chat of the
  user's chat list: the first chat of the list when it arrives, or a clicked one.
\<close>

theorem joins_listed_chats:
  assumes "reachable w" "lifecycle w = Mounted" "Emit_join n cid \<in> set (outbox (sock w))"
  shows "\<exists>c \<in> set (userChats (page w)). chat_id c = cid"
  using reachable_room_inv [OF assms(1)] assms(2,3) by (auto simp: room_inv_def rooms_listed_def)

theorem joins_listed_chats_witness:
  "Emit_join ''ann'' 7 \<in> set (outbox (sock w_loaded)) \<and>
   (\<exists>c \<in> set (userChats (page w_loaded)). chat_id c = 7)"
  using joins_listed_chats [OF run_init_reachable [OF run_chats_loaded], of "''ann''" 7] w_loaded_sel
  by simp

text \<open>
  C35. The page state is well formed while mounted: the open chat is one of the chats of
  the user's list, so the chat view always belongs to a listed conversation.
\<close>

theorem open_chat_listed:
  assumes "reachable w" "lifecycle w = Mounted" "currentChat (page w) = Some c"
  shows "c \<in> set (userChats (page w))"
  using reachable_room_inv [OF assms(1)] assms(2,3) by (auto simp: room_inv_def rooms_listed_def)

theorem open_chat_listed_witness: "general \<in> set (userChats (page w_loaded))"
  using open_chat_listed [OF run_init_reachable [OF run_chats_loaded]] w_loaded_sel by simp

text \<open>
  The start-up chain composes as the code intends when every backend call
  succeeds: mounting, \<open>getCurrentUser\<close>, \<open>getUserByUsername\<close>, \<open>getChatsOfUser\<close>
  returning a non-empty list and the first chat's history leave the user signed in, the
  list stored, its first chat open with its history in chronological order, the socket
  connected with one listener per event, exactly one \<open>join\<close> sent, nothing awaited and
  no alert, after exactly these four backend calls.
\<close>

theorem startup_happy_path:
  "run world_init
     [Mount, Settle 0 (Resp_current_user (Inr nm)), Settle 0 (Resp_user (Inr u)),
      Settle 0 (Resp_chats (Inr (c # cs))), Settle 0 (Resp_messages (Inr msgs))] =
   Some (world_init\<lparr>
     page := page_init\<lparr>user := Some u, userChats := c # cs, currentChat := Some c,
                       chatMessages := rev msgs, firstLoad := False\<rparr>,
     sock := \<lparr>connected = True, listeners = [New_message, Error_sending_message],
              outbox = [Emit_join (username u) (chat_id c)]\<rparr>,
     lifecycle := Mounted,
     requests := [Req_current_user, Req_user_by_name nm, Req_chats (username u), Req_messages c 20]\<rparr>)"
  by (simp add: page_defs run_eval socket_defs world_init_def socket_init_def)

subsection \<open>The page with its backend and chat server\<close>

text \<open>
  C36. Start-up against the backend (spec 4.3 and 6): when \<open>getCurrentUser\<close> names a
  user the backend knows and that user's chat list is not empty, mounting, the three
  start-up answers, the server receiving the \<open>join\<close> and the history answer leave the
  user signed in, the list stored, its first chat open, the newest 20 messages of that
  chat (all of them when there are fewer) shown oldest first, no alert, and the socket in
  exactly that chat's room.
\<close>

theorem server_startup:
  assumes "server_fresh s" "getCurrentUser s = Inr n" "getUserByUsername s n = Inr u"
    and "getChatsOfUser s (username u) = c # cs"
  shows "\<exists>w s'. sys_run (world_init, s) startup_events = Some (w, s') \<and>
    user (page w) = Some u \<and> userChats (page w) = c # cs \<and> currentChat (page w) = Some c \<and>
    chatMessages (page w) = drop (length (room_log s (chat_id c)) - 20) (room_log s (chat_id c)) \<and>
    \<not> showAlertModal (page w) \<and> srv_rooms s' = [chat_id c]"
  using assms
  by (simp add: startup_events_def page_defs run_eval socket_defs world_init_def socket_init_def
      server_fresh_def getMessagesOfChat_recent room_log_def)

theorem server_startup_witness:
  "\<exists>w s'. sys_run (world_init, demo_server) startup_events = Some (w, s') \<and>
    user (page w) = Some alice \<and> currentChat (page w) = Some chat_general \<and>
    map message_content (chatMessages (page w)) = [''Welcome''] \<and> srv_rooms s' = [1]"
  using server_startup [of demo_server "''alice''" alice chat_general "[chat_team]"]
  by (auto simp: alice_def chat_general_def chat_team_def demo_server_def server_fresh_def getCurrentUser_def getUserByUsername_def
      getChatsOfUser_def room_log_def)

text \<open>
  C3. A message the user sends comes back to the page (spec 4.4 and the wire contract):
  once the server has received everything the socket sent and the socket is in the open
  chat's room, typing a non-blank text, clicking Send, the server receiving the packet
  and its \<open>new_message\<close> reaching the socket append exactly the stored message (the
  user's id and names, the open chat, the text, the server's time) to the shown
  messages, store it once on the server and clear the input.
\<close>

theorem send_echo_appends:
  assumes "sys_reach (w, s)" "lifecycle w = Mounted" "user (page w) = Some u"
    and "currentChat (page w) = Some c" "chat_id c \<in> set (srv_rooms s)"
    and "srv_read s = length (outbox (sock w))" "srv_pushes s = []" "\<not> list_all js_ws t"
  shows "\<exists>w' s'. sys_run (w, s)
      [Page_event (Type_message t), Page_event Click_send, Server_receives, Server_pushes] = Some (w', s') \<and>
    chatMessages (page w') =
      chatMessages (page w) @ [stored_message s (user_id u) (first_name u) (last_name u) (chat_id c) t] \<and>
    srv_store s' = srv_store s @ [stored_message s (user_id u) (first_name u) (last_name u) (chat_id c) t] \<and>
    newMessage (page w') = []"
proof -
  have r: "reachable w" using assms(1) by (rule sys_reach_reachable)
  have "connected (sock w)" using reachable_live_inv [OF r] assms(2,3) by (simp add: live_inv_def)
  moreover have "listeners (sock w) = [New_message, Error_sending_message]"
    using reachable_listeners_inv [OF r] assms(2) by (simp add: listeners_inv_def)
  ultimately show ?thesis using assms(2-8)
    by (simp add: page_defs run_eval socket_defs js_trim_Nil_iff stored_message_def Let_def update_page_def)
qed

theorem send_echo_appends_witness:
  "\<exists>w' s'. sys_run demo_started
      [Page_event (Type_message ''hello''), Page_event Click_send, Server_receives, Server_pushes] = Some (w', s') \<and>
    map message_content (chatMessages (page w')) = [''Welcome'', ''hello''] \<and>
    map message_content (srv_store s') = [''Welcome'', ''hello'']"
  using send_echo_appends [of "fst demo_started" "snd demo_started" alice chat_general "''hello''"]
    demo_started_reach demo_started_state
  by (auto simp: js_ws_def stored_message_def demo_server_def)

text \<open>
  C23. The page shows only confirmed messages (spec 4.3): in every state the page and
  an honest backend and server can reach, every message the page shows is one the
  server stored, whether it came with a history or as a push.
\<close>

theorem shown_messages_stored:
  "sys_reach (w, s) \<Longrightarrow> set (chatMessages (page w)) \<subseteq> set (srv_store s)"
  by (drule sys_reach_stored_inv) (simp add: stored_inv_def)

theorem shown_messages_stored_witness:
  "chatMessages (page (fst demo_started)) \<noteq> [] \<and>
   set (chatMessages (page (fst demo_started))) \<subseteq> set (srv_store (snd demo_started))"
  using shown_messages_stored [of "fst demo_started" "snd demo_started"] demo_started_reach
    demo_started_state
  by (simp add: demo_server_def)

text \<open>
  C17. The page never leaves a room, against spec 4.2 (joining a room releases the
  previous membership): after Alice switches from General to Team, a message Bob posts
  in General reaches the page and is shown in Team's pane.
\<close>

theorem room_leak:
  "\<exists>w s. sys_run (world_init, demo_server)
      (startup_events @ [Page_event (Click_chat 1), Server_receives, Backend_answers 0,
        Other_sends 2 ''Bob'' ''Roe'' 1 ''hi'', Server_pushes]) = Some (w, s) \<and>
    currentChat (page w) = Some chat_team \<and> map message_chat_id (chatMessages (page w)) = [1]"
  by (simp add: demo_defs sys_eval)

text \<open>
  C19. A send the server rejects (spec 7, \<open>SendFailure\<close>) raises the error alert with
  the server's text, and the text the user typed is lost: it is not shown, not stored,
  and no longer in the input, since \<open>postMessage\<close> cleared it and keeps no pending copy.
\<close>

theorem send_rejected_text_lost:
  assumes "sys_reach (w, s)" "lifecycle w = Mounted" "user (page w) = Some u"
    and "currentChat (page w) = Some c" "srv_read s = length (outbox (sock w))"
    and "srv_pushes s = []" "\<not> list_all js_ws t"
  shows "\<exists>w' s'. sys_run (w, s)
      [Page_event (Type_message t), Page_event Click_send, Server_rejects e, Server_pushes] = Some (w', s') \<and>
    chatMessages (page w') = chatMessages (page w) \<and> newMessage (page w') = [] \<and>
    srv_store s' = srv_store s \<and> showAlertModal (page w') \<and> alertModalValue (page w') = e"
proof -
  have r: "reachable w" using assms(1) by (rule sys_reach_reachable)
  have "connected (sock w)" using reachable_live_inv [OF r] assms(2,3) by (simp add: live_inv_def)
  moreover have "listeners (sock w) = [New_message, Error_sending_message]"
    using reachable_listeners_inv [OF r] assms(2) by (simp add: listeners_inv_def)
  ultimately show ?thesis using assms(2-7)
    by (simp add: page_defs run_eval socket_defs js_trim_Nil_iff Let_def update_page_def)
qed

theorem send_rejected_text_lost_witness:
  "\<exists>w' s'. sys_run demo_started
      [Page_event (Type_message ''hello''), Page_event Click_send, Server_rejects ''rejected'',
       Server_pushes] = Some (w', s') \<and>
    map message_content (chatMessages (page w')) = [''Welcome''] \<and> newMessage (page w') = [] \<and>
    alertModalValue (page w') = ''rejected''"
  using send_rejected_text_lost [of "fst demo_started" "snd demo_started" alice chat_general "''hello''"
      "''rejected''"]
    demo_started_reach demo_started_state
  by (auto simp: js_ws_def demo_server_def)

end
